theory Spec2Isabelle
  imports Main "HOL-Library.AList" "HOL-Library.Multiset" "HOL-Library.Sublist"
begin

section \<open>pipe2py/compile.py: data model\<close>

text \<open>
  The exceptions the compiler can raise. Every raise of the source is an \<open>Inl\<close> of the
  model; \<open>SortError\<close> stands for whatever the external topological sorter raises.
\<close>

datatype error =
    KeyError | TypeError | AttributeError | NameError | UnboundLocalError
  | AssertionError | ImportError | SortError

text \<open>
  A decoded JSON value: the configuration tree of a module is one of these. A JSON
  object is a Python dict, kept as an association list with distinct keys.
\<close>

datatype json =
    JNull | JBool bool | JInt int | JStr string
  | JList "json list" | JObj "(string \<times> json) list"

text \<open>
  A module is the decoded object itself, \<open>{"id": .., "type": .., "conf": ..}\<close>: the
  compiler stores it as it is and reads its entries when it needs them.
\<close>

type_synonym module = json

text \<open>One end of a wire, \<open>{"moduleid": .., "id": ..}\<close>, and the wire itself.\<close>

record port =
  moduleid :: string
  port_id :: string

record wire =
  wire_id :: string
  src :: port
  tgt :: port

text \<open>
  The \<open>modules\<close> and \<open>wires\<close> fields of the raw document are each a single object or a
  list of them.
\<close>

datatype 'a one_or_many = Single 'a | Several "'a list"

record pipe_def =
  def_modules :: "module one_or_many"
  def_wires :: "wire one_or_many"

text \<open>
  The internal pipe built by \<open>parse_pipe_def\<close>. Each of its dicts is an association
  list with distinct keys; the order of the list is the iteration order of the dict.
\<close>

type_synonym 'v dict = "(string \<times> 'v) list"

record pipe =
  pipe_name :: string
  pipe_modules :: "module dict"
  pipe_embed :: "module dict"
  pipe_graph :: "string list dict"
  pipe_wires :: "wire dict"

text \<open>The two flags of the run context that the compiler reads.\<close>

record run_context =
  describe_input :: bool
  verbose :: bool

text \<open>A declared input: (position, name, prompt, default type, default value).\<close>

type_synonym pyinput = "json \<times> json \<times> json \<times> json \<times> json"

text \<open>
  An argument of a generated call, as \<open>stringify_pipe\<close> hands it to \<open>repr_args\<close>:
  \<open>Id(name)\<close>, \<open>Id(number)\<close> or a configuration value, positional or as a
  \<open>(key, value)\<close> pair.
\<close>

datatype arg = Id string | IdNum nat | Conf json

datatype argument = Positional arg | Keyword string arg

text \<open>
  What \<open>compile.py\<close> takes from outside: \<open>util.pythonise\<close>,
  \<open>topsort.topological_sort\<close> (which may raise), the names that Python can import,
  Python's \<open>cmp\<close> on two decoded values that are not both integers,
  \<open>pprint2.repr_args\<close>, and \<open>unicode\<close> of a list of declared inputs.
\<close>

record env =
  pythonise :: "string \<Rightarrow> string"
  topological_sort :: "(string \<times> string list) list \<Rightarrow> error + string list"
  importable :: "string \<Rightarrow> bool"
  cmp_other :: "json \<Rightarrow> json \<Rightarrow> int"
  repr_args :: "argument list \<Rightarrow> string"
  unicode_inputs :: "pyinput list \<Rightarrow> string"

section \<open>Python primitives\<close>

text \<open>\<open>d[k] = v\<close>: overwrite in place, or add a new key.\<close>

definition dict_set :: "string \<Rightarrow> 'v \<Rightarrow> 'v dict \<Rightarrow> 'v dict" where
  "dict_set k v d = AList.update k v d"

text \<open>\<open>d[k]\<close>: a missing key raises KeyError.\<close>

definition dict_get :: "'v dict \<Rightarrow> string \<Rightarrow> error + 'v" where
  "dict_get d k = (case map_of d k of None \<Rightarrow> Inl KeyError | Some v \<Rightarrow> Inr v)"

text \<open>\<open>del d[k]\<close> for a key that is present.\<close>

definition dict_del :: "string \<Rightarrow> 'v dict \<Rightarrow> 'v dict" where
  "dict_del k d = AList.delete k d"

definition keys :: "'v dict \<Rightarrow> string list" where
  "keys d = map fst d"

text \<open>\<open>v[k]\<close> on a JSON value: only a dict can be indexed by a string.\<close>

fun getitem :: "json \<Rightarrow> string \<Rightarrow> error + json" where
  "getitem (JObj kvs) k = dict_get kvs k"
| "getitem _ k = Inl TypeError"

text \<open>
  \<open>module['id']\<close>, \<open>module['type']\<close> and \<open>module['conf']\<close>.
\<close>

definition mod_id :: "module \<Rightarrow> error + json" where
  "mod_id m = getitem m ''id''"

definition mod_type :: "module \<Rightarrow> error + json" where
  "mod_type m = getitem m ''type''"

definition conf :: "module \<Rightarrow> error + json" where
  "conf m = getitem m ''conf''"

text \<open>
  A value used as a string (\<open>util.pythonise(v)\<close>, \<open>v.startswith(..)\<close>): the string
  methods exist on strings only.
\<close>

fun as_str :: "json \<Rightarrow> error + string" where
  "as_str (JStr s) = Inr s"
| "as_str _ = Inl AttributeError"

text \<open>\<open>s.startswith(p)\<close>.\<close>

definition startswith :: "string \<Rightarrow> string \<Rightarrow> bool" where
  "startswith s p = (take (length p) s = p)"

text \<open>\<open>if not isinstance(x, list): x = [x]\<close>.\<close>

fun as_list :: "'a one_or_many \<Rightarrow> 'a list" where
  "as_list (Single x) = [x]"
| "as_list (Several xs) = xs"

section \<open>parse\_pipe\_def\<close>

text \<open>\<open>util.pythonise(module['id'])\<close>.\<close>

definition module_key :: "env \<Rightarrow> module \<Rightarrow> error + string" where
  "module_key env m =
     (case mod_id m of
        Inl e \<Rightarrow> Inl e
      | Inr i \<Rightarrow> (case as_str i of Inl e \<Rightarrow> Inl e | Inr s \<Rightarrow> Inr (pythonise env s)))"

text \<open>\<open>module['conf']['embed']['value']\<close>: the embedded module, as it is.\<close>

definition embed_value :: "module \<Rightarrow> error + module" where
  "embed_value m =
     (case conf m of
        Inl e \<Rightarrow> Inl e
      | Inr c \<Rightarrow>
          (case getitem c ''embed'' of
             Inl e \<Rightarrow> Inl e
           | Inr em \<Rightarrow> getitem em ''value''))"

text \<open>\<open>pipe['graph'][k].append(x)\<close>.\<close>

definition graph_append :: "string \<Rightarrow> string \<Rightarrow> string list dict \<Rightarrow> error + string list dict" where
  "graph_append k x g =
     (case dict_get g k of
        Inl e \<Rightarrow> Inl e
      | Inr succs \<Rightarrow> Inr (dict_set k (succs @ [x]) g))"

text \<open>
  The body of \<open>for module in modules\<close> (lines 75 to 87).
\<close>

definition register_module :: "env \<Rightarrow> module \<Rightarrow> pipe \<Rightarrow> error + pipe" where
  "register_module env m p =
     (case module_key env m of Inl e \<Rightarrow> Inl e | Inr mid \<Rightarrow>
      let p1 = p\<lparr>pipe_modules := dict_set mid m (pipe_modules p),
                 pipe_graph := dict_set mid [] (pipe_graph p)\<rparr>
      in case mod_type m of Inl e \<Rightarrow> Inl e | Inr t \<Rightarrow>
         if t = JStr ''loop'' then
           (case embed_value m of Inl e \<Rightarrow> Inl e | Inr em \<Rightarrow>
            case module_key env em of Inl e \<Rightarrow> Inl e | Inr eid \<Rightarrow>
              (let p2 = p1\<lparr>pipe_modules := dict_set eid em (pipe_modules p1),
                           pipe_graph := dict_set eid [] (pipe_graph p1),
                           pipe_embed := dict_set eid em (pipe_embed p1)\<rparr>
               in case graph_append eid mid (pipe_graph p2) of
                    Inl e \<Rightarrow> Inl e
                  | Inr g \<Rightarrow> Inr (p2\<lparr>pipe_graph := g\<rparr>)))
         else Inr p1)"

fun register_modules :: "env \<Rightarrow> module list \<Rightarrow> pipe \<Rightarrow> error + pipe" where
  "register_modules env [] p = Inr p"
| "register_modules env (m # ms) p =
     (case register_module env m p of
        Inl e \<Rightarrow> Inl e
      | Inr p' \<Rightarrow> register_modules env ms p')"

text \<open>The first \<open>for wire in wires\<close> (lines 94 to 96): one graph edge per wire.\<close>

fun add_edges :: "env \<Rightarrow> wire list \<Rightarrow> string list dict \<Rightarrow> error + string list dict" where
  "add_edges env [] g = Inr g"
| "add_edges env (w # ws) g =
     (case graph_append (pythonise env (moduleid (src w))) (pythonise env (moduleid (tgt w))) g of
        Inl e \<Rightarrow> Inl e
      | Inr g' \<Rightarrow> add_edges env ws g')"

text \<open>
  \<open>targetted = [node in pipe['graph'][k] for k in pipe['graph']]\<close> followed by
  \<open>any(targetted)\<close>.
\<close>

definition targetted :: "string \<Rightarrow> string list dict \<Rightarrow> bool list" where
  "targetted node g = map (\<lambda>(k, succs). node \<in> set succs) g"

definition any :: "bool list \<Rightarrow> bool" where
  "any bs = (True \<in> set bs)"

text \<open>
  The orphan loop (lines 99 to 102) over the snapshot \<open>pipe['graph'].keys()\<close>, deleting
  from the live graph.
\<close>

fun remove_orphans :: "string list \<Rightarrow> string list dict \<Rightarrow> error + string list dict" where
  "remove_orphans [] g = Inr g"
| "remove_orphans (node # nodes) g =
     (let t = targetted node g
      in case dict_get g node of
           Inl e \<Rightarrow> Inl e
         | Inr succs \<Rightarrow>
             if succs = [] \<and> \<not> any t then remove_orphans nodes (dict_del node g)
             else remove_orphans nodes g)"

text \<open>The second \<open>for wire in wires\<close> (lines 104 and 105).\<close>

fun register_wires :: "env \<Rightarrow> wire list \<Rightarrow> wire dict \<Rightarrow> wire dict" where
  "register_wires env [] d = d"
| "register_wires env (w # ws) d =
     register_wires env ws (dict_set (pythonise env (wire_id w)) w d)"

definition empty_pipe :: "env \<Rightarrow> string \<Rightarrow> pipe" where
  "empty_pipe env nm =
     \<lparr>pipe_name = pythonise env nm, pipe_modules = [], pipe_embed = [],
      pipe_graph = [], pipe_wires = []\<rparr>"

text \<open>
  The pipe as it stands when the orphan loop starts: modules registered, edges added.
\<close>

definition parse_before_pruning :: "env \<Rightarrow> pipe_def \<Rightarrow> string \<Rightarrow> error + pipe" where
  "parse_before_pruning env d nm =
     (case register_modules env (as_list (def_modules d)) (empty_pipe env nm) of
        Inl e \<Rightarrow> Inl e
      | Inr p \<Rightarrow>
          (case add_edges env (as_list (def_wires d)) (pipe_graph p) of
             Inl e \<Rightarrow> Inl e
           | Inr g \<Rightarrow> Inr (p\<lparr>pipe_graph := g\<rparr>)))"

definition parse_pipe_def :: "env \<Rightarrow> pipe_def \<Rightarrow> string \<Rightarrow> error + pipe" where
  "parse_pipe_def env d nm =
     (case parse_before_pruning env d nm of
        Inl e \<Rightarrow> Inl e
      | Inr p \<Rightarrow>
          (case remove_orphans (keys (pipe_graph p)) (pipe_graph p) of
             Inl e \<Rightarrow> Inl e
           | Inr g \<Rightarrow>
               Inr (p\<lparr>pipe_graph := g,
                       pipe_wires := register_wires env (as_list (def_wires d)) (pipe_wires p)\<rparr>)))"

text \<open>
  The two properties of a graph node that the orphan loop tests, and the canonical ids
  that a list of modules registers when each registration goes through (each module,
  and the embedded module of each loop).
\<close>

definition orphan :: "string \<Rightarrow> string list dict \<Rightarrow> bool" where
  "orphan node g = (map_of g node = Some [] \<and> (\<forall>(k, succs) \<in> set g. node \<notin> set succs))"

definition module_ids :: "env \<Rightarrow> module \<Rightarrow> string list" where
  "module_ids env m =
     (case module_key env m of
        Inl e \<Rightarrow> []
      | Inr mid \<Rightarrow>
          mid #
          (if mod_type m = Inr (JStr ''loop'') then
             (case embed_value m of
                Inl e \<Rightarrow> []
              | Inr em \<Rightarrow> (case module_key env em of Inl e \<Rightarrow> [] | Inr eid \<Rightarrow> [eid]))
           else []))"

fun registered_ids :: "env \<Rightarrow> module list \<Rightarrow> string list" where
  "registered_ids env [] = []"
| "registered_ids env (m # ms) = module_ids env m @ registered_ids env ms"

section \<open>build\_pipeline\<close>

text \<open>
  The Python objects that \<open>build_pipeline\<close> handles: the generator returned by
  \<open>pipeforever.pipe_forever\<close>, a string, a configuration value, an integer, the run
  context, and the module object returned by \<open>importlib.import_module\<close>.
\<close>

datatype pyval =
    Forever | PyStr string | PyJson json | PyInt int
  | PyContext run_context | PyModule string

datatype result = Inputs "pyinput list" | Pipeline pyval

text \<open>Truth value of a decoded value, and \<open>key in value\<close>.\<close>

fun truthy :: "json \<Rightarrow> bool" where
  "truthy JNull = False"
| "truthy (JBool b) = b"
| "truthy (JInt i) = (i \<noteq> 0)"
| "truthy (JStr s) = (s \<noteq> [])"
| "truthy (JList xs) = (xs \<noteq> [])"
| "truthy (JObj kvs) = (kvs \<noteq> [])"

fun contains :: "json \<Rightarrow> string \<Rightarrow> error + bool" where
  "contains (JObj kvs) k = Inr (k \<in> set (keys kvs))"
| "contains (JList xs) k = Inr (JStr k \<in> set xs)"
| "contains (JStr s) k = Inr (sublist k s)"
| "contains _ k = Inl TypeError"

text \<open>\<open>c and 'prompt' in c\<close>.\<close>

definition has_prompt :: "json \<Rightarrow> error + bool" where
  "has_prompt c = (if truthy c then contains c ''prompt'' else Inr False)"

text \<open>\<open>c[k1][k2]\<close>.\<close>

definition getitem2 :: "json \<Rightarrow> string \<Rightarrow> string \<Rightarrow> error + json" where
  "getitem2 c k1 k2 = (case getitem c k1 of Inl e \<Rightarrow> Inl e | Inr v \<Rightarrow> getitem v k2)"

text \<open>The tuple appended to \<open>pyinput\<close> (lines 136 to 142), read left to right.\<close>

definition input_tuple :: "json \<Rightarrow> error + pyinput" where
  "input_tuple c =
     (case getitem2 c ''position'' ''value'' of Inl e \<Rightarrow> Inl e | Inr position \<Rightarrow>
      case getitem2 c ''name'' ''value'' of Inl e \<Rightarrow> Inl e | Inr name \<Rightarrow>
      case getitem2 c ''prompt'' ''value'' of Inl e \<Rightarrow> Inl e | Inr prompt \<Rightarrow>
      case getitem2 c ''default'' ''type'' of Inl e \<Rightarrow> Inl e | Inr default_type \<Rightarrow>
      case getitem2 c ''default'' ''value'' of Inl e \<Rightarrow> Inl e | Inr default_value \<Rightarrow>
        Inr (position, name, prompt, default_type, default_value))"

text \<open>\<open>__import__(name)\<close>.\<close>

definition import_name :: "env \<Rightarrow> string \<Rightarrow> error + pyval" where
  "import_name env n = (if importable env n then Inr (PyModule n) else Inl ImportError)"

text \<open>
  The first pass of \<open>build_pipeline\<close> (lines 124 to 143): import the sub-pipelines,
  collect the declared inputs when \<open>describe_input\<close> is set.
\<close>

text \<open>\<open>module['type'].startswith('pipe:')\<close>.\<close>

definition is_subpipe :: "module \<Rightarrow> error + bool" where
  "is_subpipe m =
     (case mod_type m of
        Inl e \<Rightarrow> Inl e
      | Inr t \<Rightarrow> (case as_str t of Inl e \<Rightarrow> Inl e | Inr s \<Rightarrow> Inr (startswith s ''pipe:'')))"

text \<open>\<open>util.pythonise(module['type'])\<close>.\<close>

definition type_key :: "env \<Rightarrow> module \<Rightarrow> error + string" where
  "type_key env m =
     (case mod_type m of
        Inl e \<Rightarrow> Inl e
      | Inr t \<Rightarrow> (case as_str t of Inl e \<Rightarrow> Inl e | Inr s \<Rightarrow> Inr (pythonise env s)))"

text \<open>\<open>module['conf'] and 'prompt' in module['conf']\<close>.\<close>

definition module_has_prompt :: "module \<Rightarrow> error + bool" where
  "module_has_prompt m = (case conf m of Inl e \<Rightarrow> Inl e | Inr c \<Rightarrow> has_prompt c)"

text \<open>The tuple read from \<open>module['conf']\<close>.\<close>

definition module_input_tuple :: "module \<Rightarrow> error + pyinput" where
  "module_input_tuple m = (case conf m of Inl e \<Rightarrow> Inl e | Inr c \<Rightarrow> input_tuple c)"

fun first_pass :: "env \<Rightarrow> run_context \<Rightarrow> pipe \<Rightarrow> string list \<Rightarrow> pyinput list \<Rightarrow> error + pyinput list" where
  "first_pass env ctx pipe [] pyinput = Inr pyinput"
| "first_pass env ctx pipe (module_id # rest) pyinput =
     (case dict_get (pipe_modules pipe) module_id of Inl e \<Rightarrow> Inl e | Inr m \<Rightarrow>
      case is_subpipe m of Inl e \<Rightarrow> Inl e | Inr sub \<Rightarrow>
      case (if sub then
              (case type_key env m of Inl e \<Rightarrow> Inl e | Inr n \<Rightarrow> import_name env n)
            else Inr Forever) of
        Inl e \<Rightarrow> Inl e
      | Inr _ \<Rightarrow>
      case module_has_prompt m of Inl e \<Rightarrow> Inl e | Inr hp \<Rightarrow>
        if hp \<and> describe_input ctx then
          (case module_input_tuple m of
             Inl e \<Rightarrow> Inl e
           | Inr t \<Rightarrow> first_pass env ctx pipe rest (pyinput @ [t]))
        else first_pass env ctx pipe rest pyinput)"

text \<open>
  \<open>sorted(pyinput)\<close>. Python compares two integers by value; \<open>cmp\<close> of any other two
  values is taken from the environment. Tuples are compared at the first component
  where they differ, and \<open>sorted\<close> is stable.
\<close>

definition py_cmp :: "env \<Rightarrow> json \<Rightarrow> json \<Rightarrow> int" where
  "py_cmp env a b =
     (case (a, b) of
        (JInt i, JInt j) \<Rightarrow> (if i < j then - 1 else if i = j then 0 else 1)
      | _ \<Rightarrow> cmp_other env a b)"

fun list_lt :: "env \<Rightarrow> json list \<Rightarrow> json list \<Rightarrow> bool" where
  "list_lt env [] [] = False"
| "list_lt env [] (b # bs) = True"
| "list_lt env (a # as) [] = False"
| "list_lt env (a # as) (b # bs) =
     (if py_cmp env a b = 0 then list_lt env as bs else py_cmp env a b < 0)"

definition tuple_lt :: "env \<Rightarrow> pyinput \<Rightarrow> pyinput \<Rightarrow> bool" where
  "tuple_lt env s t =
     (case (s, t) of ((a1, a2, a3, a4, a5), (b1, b2, b3, b4, b5)) \<Rightarrow>
        list_lt env [a1, a2, a3, a4, a5] [b1, b2, b3, b4, b5])"

fun insort_py :: "env \<Rightarrow> pyinput \<Rightarrow> pyinput list \<Rightarrow> pyinput list" where
  "insort_py env x [] = [x]"
| "insort_py env x (y # ys) =
     (if tuple_lt env x y then x # y # ys else y # insort_py env x ys)"

fun sorted_py_acc :: "env \<Rightarrow> pyinput list \<Rightarrow> pyinput list \<Rightarrow> pyinput list" where
  "sorted_py_acc env [] acc = acc"
| "sorted_py_acc env (x # xs) acc = sorted_py_acc env xs (insort_py env x acc)"

definition sorted_py :: "env \<Rightarrow> pyinput list \<Rightarrow> pyinput list" where
  "sorted_py env xs = sorted_py_acc env xs []"

text \<open>
  The tests of the two wire loops, written twice in each backend: the wire is to this
  module, it is (or is not) the default input, and it leaves a default output.
\<close>

definition is_default_input_wire :: "env \<Rightarrow> string \<Rightarrow> wire \<Rightarrow> bool" where
  "is_default_input_wire env module_id pipe_wire =
     (pythonise env (moduleid (tgt pipe_wire)) = module_id
      \<and> port_id (tgt pipe_wire) = ''_INPUT''
      \<and> startswith (port_id (src pipe_wire)) ''_OUTPUT'')"

definition is_extra_input_wire :: "env \<Rightarrow> string \<Rightarrow> wire \<Rightarrow> bool" where
  "is_extra_input_wire env module_id pipe_wire =
     (pythonise env (moduleid (tgt pipe_wire)) = module_id
      \<and> port_id (tgt pipe_wire) \<noteq> ''_INPUT''
      \<and> startswith (port_id (src pipe_wire)) ''_OUTPUT'')"

text \<open>
  \<open>for wire in pipe['wires']: pipe_wire = pipe['wires'][wire]\<close> visits the values of
  the dict in its iteration order.
\<close>

definition wire_values :: "pipe \<Rightarrow> wire list" where
  "wire_values pipe = map snd (pipe_wires pipe)"

text \<open>Lines 161 to 174: the default input of a module.\<close>

fun default_input_loop :: "env \<Rightarrow> pyval dict \<Rightarrow> string \<Rightarrow> wire list \<Rightarrow> pyval \<Rightarrow> error + pyval" where
  "default_input_loop env steps module_id [] input_module = Inr input_module"
| "default_input_loop env steps module_id (pipe_wire # ws) input_module =
     (if is_default_input_wire env module_id pipe_wire then
        (case dict_get steps (pythonise env (moduleid (src pipe_wire))) of
           Inl e \<Rightarrow> Inl e
         | Inr s \<Rightarrow> default_input_loop env steps module_id ws s)
      else default_input_loop env steps module_id ws input_module)"

definition find_default_input :: "env \<Rightarrow> pyval dict \<Rightarrow> pipe \<Rightarrow> string \<Rightarrow> error + pyval" where
  "find_default_input env steps pipe module_id =
     (case dict_get steps ''forever'' of
        Inl e \<Rightarrow> Inl e
      | Inr f \<Rightarrow> default_input_loop env steps module_id (wire_values pipe) f)"

text \<open>
  Lines 176 to 181. The assertion compares \<open>input_module\<close> with the pair
  \<open>(steps["forever"], "input_module of an embedded module was already set")\<close>; no value
  that \<open>input_module\<close> can hold is a pair.
\<close>

definition eq_tuple :: "pyval \<Rightarrow> pyval \<times> string \<Rightarrow> bool" where
  "eq_tuple v t = False"

definition check_embedded :: "pyval dict \<Rightarrow> pyval \<Rightarrow> error + pyval" where
  "check_embedded steps input_module =
     (case dict_get steps ''forever'' of
        Inl e \<Rightarrow> Inl e
      | Inr f \<Rightarrow>
          if eq_tuple input_module (f, ''input_module of an embedded module was already set'')
          then Inr (PyStr ''_INPUT'')
          else Inl AssertionError)"

text \<open>Lines 187 to 199: the extra inputs, stored in the dict \<open>kargs\<close>.\<close>

fun extra_inputs_loop :: "env \<Rightarrow> pyval dict \<Rightarrow> string \<Rightarrow> wire list \<Rightarrow> pyval dict \<Rightarrow> error + pyval dict" where
  "extra_inputs_loop env steps module_id [] kargs = Inr kargs"
| "extra_inputs_loop env steps module_id (pipe_wire # ws) kargs =
     (if is_extra_input_wire env module_id pipe_wire then
        (case dict_get steps (pythonise env (moduleid (src pipe_wire))) of
           Inl e \<Rightarrow> Inl e
         | Inr s \<Rightarrow>
             extra_inputs_loop env steps module_id ws
               (dict_set (pythonise env (port_id (tgt pipe_wire))) s kargs))
      else extra_inputs_loop env steps module_id ws kargs)"

text \<open>\<open>util.pythonise(module['conf']['embed']['value']['id'])\<close>.\<close>

definition embed_key :: "env \<Rightarrow> module \<Rightarrow> error + string" where
  "embed_key env m =
     (case embed_value m of Inl e \<Rightarrow> Inl e | Inr em \<Rightarrow> module_key env em)"

text \<open>
  Lines 207 to 212 (and 359 to 364). \<open>filter\<close> runs the lambda on each element of
  \<open>pipe['wires']\<close>, and iterating a dict yields its keys: \<open>x\<close> is a wire id, a string,
  and \<open>x['src']\<close> raises TypeError.
\<close>

definition split_test :: "env \<Rightarrow> string \<Rightarrow> string \<Rightarrow> error + bool" where
  "split_test env module_id x = Inl TypeError"

fun filter_py :: "('a \<Rightarrow> error + bool) \<Rightarrow> 'a list \<Rightarrow> error + 'a list" where
  "filter_py f [] = Inr []"
| "filter_py f (x # xs) =
     (case f x of
        Inl e \<Rightarrow> Inl e
      | Inr b \<Rightarrow>
          (case filter_py f xs of
             Inl e \<Rightarrow> Inl e
           | Inr ys \<Rightarrow> Inr (if b then x # ys else ys)))"

definition count_splits :: "env \<Rightarrow> string \<Rightarrow> wire dict \<Rightarrow> error + nat" where
  "count_splits env module_id ws =
     (case filter_py (split_test env module_id) (keys ws) of
        Inl e \<Rightarrow> Inl e
      | Inr filtered \<Rightarrow> Inr (length filtered))"

text \<open>
  Lines 156 to 212: the positional and keyword arguments \<open>pargs\<close> and \<open>kargs\<close> that
  \<open>build_pipeline\<close> prepares for the module.
\<close>

definition plumb :: "env \<Rightarrow> run_context \<Rightarrow> pipe \<Rightarrow> pyval dict \<Rightarrow> string \<Rightarrow> module \<Rightarrow> error + (pyval list \<times> pyval dict)" where
  "plumb env ctx pipe steps module_id m =
     (case mod_type m of Inl e \<Rightarrow> Inl e | Inr module_type \<Rightarrow>
      case find_default_input env steps pipe module_id of Inl e \<Rightarrow> Inl e | Inr input0 \<Rightarrow>
      case (if module_id \<in> set (keys (pipe_embed pipe))
            then check_embedded steps input0 else Inr input0) of
        Inl e \<Rightarrow> Inl e
      | Inr input_module \<Rightarrow>
      case conf m of Inl e \<Rightarrow> Inl e | Inr c \<Rightarrow>
      case extra_inputs_loop env steps module_id (wire_values pipe) [(''conf'', PyJson c)] of
        Inl e \<Rightarrow> Inl e
      | Inr kargs1 \<Rightarrow>
      case (if module_type = JStr ''loop'' then
              (case embed_key env m of Inl e \<Rightarrow> Inl e | Inr eid \<Rightarrow>
               case dict_get steps eid of Inl e \<Rightarrow> Inl e | Inr s \<Rightarrow>
                 Inr (dict_set ''embed'' s kargs1))
            else Inr kargs1) of
        Inl e \<Rightarrow> Inl e
      | Inr kargs2 \<Rightarrow>
      case (if module_type = JStr ''split'' then
              (case count_splits env module_id (pipe_wires pipe) of Inl e \<Rightarrow> Inl e | Inr n \<Rightarrow>
                 Inr (dict_set ''splits'' (PyInt (int n)) kargs2))
            else Inr kargs2) of
        Inl e \<Rightarrow> Inl e
      | Inr kargs3 \<Rightarrow> Inr ([PyContext ctx, input_module], kargs3))"

text \<open>
  Lines 215 to 220: \<open>(pymodule_name, pymodule_generator_name)\<close>. Line 218 calls
  \<open>module_type.startswith\<close>, so the type is a string here.
\<close>

definition module_names :: "env \<Rightarrow> string \<Rightarrow> string \<times> string" where
  "module_names env module_type =
     (if startswith module_type ''pipe:''
      then (''sys.modules['' @ [CHR 0x27] @ pythonise env module_type @ [CHR 0x27] @ '']'',
            pythonise env module_type)
      else (''pipe'' @ module_type, ''pipe_'' @ module_type))"

text \<open>
  \<open>importlib.import_module(name, package)\<close> imports the module called \<open>name\<close> and
  returns the module object; \<open>package\<close> only anchors a relative name.
\<close>

definition import_module :: "env \<Rightarrow> string \<Rightarrow> string \<Rightarrow> error + pyval" where
  "import_module env n package = import_name env n"

text \<open>
  \<open>module_ref(*pargs, **kargs)\<close>: generators, strings, numbers, dicts, the context and
  module objects are not callable.
\<close>

definition call_object :: "pyval \<Rightarrow> pyval list \<Rightarrow> pyval dict \<Rightarrow> error + pyval" where
  "call_object f pargs kargs = Inl TypeError"

text \<open>
  Line 230: \<open>partial(module_ref, context, _INPUT, conf=module['conf'], **kwargs)\<close>.
  Neither \<open>_INPUT\<close> nor \<open>kwargs\<close> is a name of \<open>build_pipeline\<close> or of the module.
\<close>

definition make_submodule :: "pyval \<Rightarrow> run_context \<Rightarrow> module \<Rightarrow> error + pyval" where
  "make_submodule module_ref ctx m = Inl NameError"

text \<open>The body of the second loop (lines 155 to 238); it returns the new \<open>steps\<close>.\<close>

definition assemble_module :: "env \<Rightarrow> run_context \<Rightarrow> pipe \<Rightarrow> pyval dict \<Rightarrow> string \<Rightarrow> error + pyval dict" where
  "assemble_module env ctx pipe steps module_id =
     (case dict_get (pipe_modules pipe) module_id of Inl e \<Rightarrow> Inl e | Inr m \<Rightarrow>
      case plumb env ctx pipe steps module_id m of Inl e \<Rightarrow> Inl e | Inr (pargs, kargs) \<Rightarrow>
      case mod_type m of Inl e \<Rightarrow> Inl e | Inr t \<Rightarrow>
      case as_str t of Inl e \<Rightarrow> Inl e | Inr module_type \<Rightarrow>
      case import_module env (snd (module_names env module_type))
             (fst (module_names env module_type)) of
        Inl e \<Rightarrow> Inl e
      | Inr module_ref \<Rightarrow>
      case (if module_id \<in> set (keys (pipe_embed pipe))
            then make_submodule module_ref ctx m
            else call_object module_ref pargs kargs) of
        Inl e \<Rightarrow> Inl e
      | Inr step \<Rightarrow> Inr (dict_set module_id step steps))"

fun assemble_all :: "env \<Rightarrow> run_context \<Rightarrow> pipe \<Rightarrow> string list \<Rightarrow> pyval dict \<Rightarrow> pyval dict \<times> error option" where
  "assemble_all env ctx pipe [] steps = (steps, None)"
| "assemble_all env ctx pipe (module_id # rest) steps =
     (case assemble_module env ctx pipe steps module_id of
        Inl e \<Rightarrow> (steps, Some e)
      | Inr steps' \<Rightarrow> assemble_all env ctx pipe rest steps')"

text \<open>
  \<open>return steps[module_id]\<close>: \<open>module_id\<close> is the loop variable, unbound when the loop
  never ran.
\<close>

definition last_step :: "string list \<Rightarrow> pyval dict \<Rightarrow> error + pyval" where
  "last_step module_sequence steps =
     (if module_sequence = [] then Inl UnboundLocalError
      else dict_get steps (last module_sequence))"

text \<open>
  \<open>build_pipeline\<close>. The first component of the result is the dict \<open>steps\<close> as it is
  when the function exits (empty when it was never created): the steps instantiated.
  Printing under \<open>context.verbose\<close> is not modelled.
\<close>

definition build_pipeline :: "env \<Rightarrow> run_context \<Rightarrow> pipe \<Rightarrow> pyval dict \<times> (error + result)" where
  "build_pipeline env ctx pipe =
     (case topological_sort env (pipe_graph pipe) of
        Inl e \<Rightarrow> ([], Inl e)
      | Inr module_sequence \<Rightarrow>
      case first_pass env ctx pipe module_sequence [] of
        Inl e \<Rightarrow> ([], Inl e)
      | Inr pyinput \<Rightarrow>
          if describe_input ctx then ([], Inr (Inputs (sorted_py env pyinput)))
          else
            (case assemble_all env ctx pipe module_sequence (dict_set ''forever'' Forever []) of
               (steps, Some e) \<Rightarrow> (steps, Inl e)
             | (steps, None) \<Rightarrow>
                 (case last_step module_sequence steps of
                    Inl e \<Rightarrow> (steps, Inl e)
                  | Inr s \<Rightarrow> (steps, Inr (Pipeline s)))))"

section \<open>stringify\_pipe\<close>

definition nl :: string where
  "nl = [CHR 0x0A]"

definition dq :: string where
  "dq = [CHR 0x22]"

text \<open>The first pass of \<open>stringify_pipe\<close> (lines 267 to 282).\<close>

fun first_pass_str :: "env \<Rightarrow> pipe \<Rightarrow> string list \<Rightarrow> string \<Rightarrow> pyinput list \<Rightarrow> error + (string \<times> pyinput list)" where
  "first_pass_str env pipe [] pypipe pyinput = Inr (pypipe, pyinput)"
| "first_pass_str env pipe (module_id # rest) pypipe pyinput =
     (case dict_get (pipe_modules pipe) module_id of Inl e \<Rightarrow> Inl e | Inr m \<Rightarrow>
      case is_subpipe m of Inl e \<Rightarrow> Inl e | Inr sub \<Rightarrow>
      case (if sub then
              (case type_key env m of Inl e \<Rightarrow> Inl e | Inr n \<Rightarrow>
                 Inr (pypipe @ ''import '' @ n @ nl))
            else Inr pypipe) of
        Inl e \<Rightarrow> Inl e
      | Inr pypipe1 \<Rightarrow>
      case module_has_prompt m of Inl e \<Rightarrow> Inl e | Inr hp \<Rightarrow>
        if hp then
          (case module_input_tuple m of
             Inl e \<Rightarrow> Inl e
           | Inr t \<Rightarrow> first_pass_str env pipe rest pypipe1 (pyinput @ [t]))
        else first_pass_str env pipe rest pypipe1 pyinput)"

text \<open>Lines 311 to 322: the default input, as the name of a local variable.\<close>

fun default_input_loop_str :: "env \<Rightarrow> string \<Rightarrow> wire list \<Rightarrow> string \<Rightarrow> string" where
  "default_input_loop_str env module_id [] input_module = input_module"
| "default_input_loop_str env module_id (pipe_wire # ws) input_module =
     (if is_default_input_wire env module_id pipe_wire
      then default_input_loop_str env module_id ws (pythonise env (moduleid (src pipe_wire)))
      else default_input_loop_str env module_id ws input_module)"

definition find_default_input_str :: "env \<Rightarrow> pipe \<Rightarrow> string \<Rightarrow> string" where
  "find_default_input_str env pipe module_id =
     default_input_loop_str env module_id (wire_values pipe) ''forever''"

text \<open>
  Lines 324 to 329. The assertion reads \<open>steps["forever"]\<close>, and \<open>stringify_pipe\<close>
  has no name \<open>steps\<close>.
\<close>

definition check_embedded_str :: "string \<Rightarrow> error + string" where
  "check_embedded_str input_module = Inl NameError"

text \<open>Lines 335 to 350: the extra inputs, appended to the list \<open>mod_kwargs\<close>.\<close>

fun extra_inputs_loop_str :: "env \<Rightarrow> string \<Rightarrow> wire list \<Rightarrow> argument list \<Rightarrow> argument list" where
  "extra_inputs_loop_str env module_id [] mod_kwargs = mod_kwargs"
| "extra_inputs_loop_str env module_id (pipe_wire # ws) mod_kwargs =
     (if is_extra_input_wire env module_id pipe_wire
      then extra_inputs_loop_str env module_id ws
             (mod_kwargs @ [Keyword (pythonise env (port_id (tgt pipe_wire)))
                              (Id (pythonise env (moduleid (src pipe_wire))))])
      else extra_inputs_loop_str env module_id ws mod_kwargs)"

text \<open>Lines 308 to 364: \<open>mod_args\<close> and \<open>mod_kwargs\<close> of the module.\<close>

definition plumb_str :: "env \<Rightarrow> pipe \<Rightarrow> string \<Rightarrow> module \<Rightarrow> error + (argument list \<times> argument list)" where
  "plumb_str env pipe module_id m =
     (case (if module_id \<in> set (keys (pipe_embed pipe))
            then check_embedded_str (find_default_input_str env pipe module_id)
            else Inr (find_default_input_str env pipe module_id)) of
        Inl e \<Rightarrow> Inl e
      | Inr input_module \<Rightarrow>
      case conf m of Inl e \<Rightarrow> Inl e | Inr c \<Rightarrow>
      let mod_kwargs1 = extra_inputs_loop_str env module_id (wire_values pipe)
                          [Keyword ''conf'' (Conf c)]
      in
      case mod_type m of Inl e \<Rightarrow> Inl e | Inr module_type \<Rightarrow>
      case (if module_type = JStr ''loop'' then
              (case embed_key env m of Inl e \<Rightarrow> Inl e | Inr eid \<Rightarrow>
                 Inr (mod_kwargs1 @ [Keyword ''embed'' (Id (''pipe_'' @ eid))]))
            else Inr mod_kwargs1) of
        Inl e \<Rightarrow> Inl e
      | Inr mod_kwargs2 \<Rightarrow>
      case (if module_type = JStr ''split'' then
              (case count_splits env module_id (pipe_wires pipe) of Inl e \<Rightarrow> Inl e | Inr n \<Rightarrow>
                 Inr (mod_kwargs2 @ [Keyword ''splits'' (IdNum n)]))
            else Inr mod_kwargs2) of
        Inl e \<Rightarrow> Inl e
      | Inr mod_kwargs3 \<Rightarrow>
          Inr ([Positional (Id ''context''), Positional (Id input_module)], mod_kwargs3))"

text \<open>
  Lines 366 to 371: \<open>(pymodule_name, pymodule_generator_name)\<close>. Line 369 calls
  \<open>module['type'].startswith\<close>, so the type is a string here.
\<close>

definition module_names_str :: "env \<Rightarrow> string \<Rightarrow> string \<times> string" where
  "module_names_str env module_type =
     (if startswith module_type ''pipe:''
      then (pythonise env module_type, pythonise env module_type)
      else (''pipe'' @ module_type, ''pipe_'' @ module_type))"

text \<open>
  The body of the second loop (lines 306 to 401): the text it appends to \<open>pypipe\<close>.
\<close>

definition stringify_module :: "env \<Rightarrow> pipe \<Rightarrow> string \<Rightarrow> error + string" where
  "stringify_module env pipe module_id =
     (case dict_get (pipe_modules pipe) module_id of Inl e \<Rightarrow> Inl e | Inr m \<Rightarrow>
      case plumb_str env pipe module_id m of Inl e \<Rightarrow> Inl e | Inr (mod_args, mod_kwargs) \<Rightarrow>
      case mod_type m of Inl e \<Rightarrow> Inl e | Inr t \<Rightarrow>
      case as_str t of Inl e \<Rightarrow> Inl e | Inr module_type \<Rightarrow>
      let embedded = (module_id \<in> set (keys (pipe_embed pipe)));
          names = module_names_str env module_type;
          indent = (if embedded then ''    '' else [])
      in Inr
        ((if embedded then
            ''    def pipe_'' @ module_id @ ''(context, _INPUT, conf=None, **kwargs):'' @ nl
            @ ''        '' @ dq @ ''Submodule'' @ dq @ nl
          else [])
         @ indent @ ''    '' @ module_id @ '' = '' @ fst names @ ''.'' @ snd names
         @ ''('' @ repr_args env (mod_args @ mod_kwargs) @ '')'' @ nl
         @ (if embedded then ''        return '' @ module_id @ nl else [])))"

fun stringify_all :: "env \<Rightarrow> pipe \<Rightarrow> string list \<Rightarrow> string \<Rightarrow> error + string" where
  "stringify_all env pipe [] pypipe = Inr pypipe"
| "stringify_all env pipe (module_id # rest) pypipe =
     (case stringify_module env pipe module_id of
        Inl e \<Rightarrow> Inl e
      | Inr t \<Rightarrow> stringify_all env pipe rest (pypipe @ t))"

definition header :: "string \<Rightarrow> string" where
  "header pipename =
     ''# Pipe '' @ pipename @ '' generated by pipe2py'' @ nl
     @ nl
     @ ''from pipe2py import Context'' @ nl
     @ ''from pipe2py.modules import *'' @ nl
     @ nl"

definition function_head :: "string \<Rightarrow> string \<Rightarrow> string" where
  "function_head pipename inputs =
     nl
     @ ''def '' @ pipename @ ''(context, _INPUT, conf=None, **kwargs):'' @ nl
     @ ''    '' @ dq @ ''Pipeline'' @ dq @ nl
     @ ''    if conf is None:'' @ nl
     @ ''        conf = {}'' @ nl
     @ nl
     @ ''    if context.describe_input:'' @ nl
     @ ''        return '' @ inputs @ nl
     @ nl
     @ ''    forever = pipeforever.pipe_forever(context, None, conf=None)'' @ nl
     @ nl"

text \<open>
  Lines 422 to 430. \<open>prev_module\<close> starts as the empty list, which \<open>%s\<close> prints as
  \<open>[]\<close>.
\<close>

definition trailer :: "string \<Rightarrow> string list \<Rightarrow> string" where
  "trailer pipename module_sequence =
     ''    return '' @ (if module_sequence = [] then ''[]'' else last module_sequence) @ nl
     @ nl
     @ ''if __name__ == '' @ dq @ ''__main__'' @ dq @ '':'' @ nl
     @ ''    context = Context()'' @ nl
     @ ''    p = '' @ pipename @ ''(context, None)'' @ nl
     @ ''    for i in p:'' @ nl
     @ ''        print i'' @ nl"

text \<open>\<open>stringify_pipe\<close>. Printing under \<open>context.verbose\<close> is not modelled.\<close>

definition stringify_pipe :: "env \<Rightarrow> run_context \<Rightarrow> pipe \<Rightarrow> error + string" where
  "stringify_pipe env ctx pipe =
     (case topological_sort env (pipe_graph pipe) of
        Inl e \<Rightarrow> Inl e
      | Inr module_sequence \<Rightarrow>
      case first_pass_str env pipe module_sequence (header (pipe_name pipe)) [] of
        Inl e \<Rightarrow> Inl e
      | Inr (pypipe, pyinput) \<Rightarrow>
      case stringify_all env pipe module_sequence
             (pypipe @ function_head (pipe_name pipe)
                         (unicode_inputs env (sorted_py env pyinput))) of
        Inl e \<Rightarrow> Inl e
      | Inr pypipe2 \<Rightarrow> Inr (pypipe2 @ trailer (pipe_name pipe) module_sequence))"

section \<open>Example documents\<close>

text \<open>
  An environment for the examples: identifiers are already canonical, the sorter
  returns the graph's nodes in dict order (a topological order of each example below),
  nothing can be imported, and arguments are rendered as the empty text.
\<close>

definition env0 :: env where
  "env0 = \<lparr>pythonise = (\<lambda>s. s),
            topological_sort = (\<lambda>g. Inr (map fst g)),
            importable = (\<lambda>n. False),
            cmp_other = (\<lambda>a b. 0),
            repr_args = (\<lambda>as. []),
            unicode_inputs = (\<lambda>xs. [])\<rparr>"

definition mk_module :: "string \<Rightarrow> string \<Rightarrow> json \<Rightarrow> module" where
  "mk_module i t c = JObj [(''id'', JStr i), (''type'', JStr t), (''conf'', c)]"

definition mk_wire :: "string \<Rightarrow> string \<Rightarrow> string \<Rightarrow> string \<Rightarrow> string \<Rightarrow> wire" where
  "mk_wire w s sp t tp =
     \<lparr>wire_id = w, src = \<lparr>moduleid = s, port_id = sp\<rparr>, tgt = \<lparr>moduleid = t, port_id = tp\<rparr>\<rparr>"

text \<open>
  The end-to-end example of the specification, with a third module that no wire
  touches: \<open>a:_OUTPUT \<rightarrow> b:_INPUT\<close>, and \<open>c\<close> alone.
\<close>

definition doc_abc :: pipe_def where
  "doc_abc =
     \<lparr>def_modules = Several [mk_module ''a'' ''source'' (JObj []),
                              mk_module ''b'' ''transform'' (JObj []),
                              mk_module ''c'' ''source'' (JObj [])],
      def_wires = Several [mk_wire ''w1'' ''a'' ''_OUTPUT'' ''b'' ''_INPUT'']\<rparr>"

text \<open>The same two modules, and a second wire from \<open>a\<close> to a module \<open>z\<close> that does not exist.\<close>

definition doc_dangling_target :: pipe_def where
  "doc_dangling_target =
     \<lparr>def_modules = Several [mk_module ''a'' ''source'' (JObj []),
                              mk_module ''b'' ''transform'' (JObj [])],
      def_wires = Several [mk_wire ''w1'' ''a'' ''_OUTPUT'' ''b'' ''_INPUT'',
                            mk_wire ''w2'' ''a'' ''_OUTPUT'' ''z'' ''_INPUT'']\<rparr>"

text \<open>A wire from a module \<open>z\<close> that does not exist.\<close>

definition doc_dangling_source :: pipe_def where
  "doc_dangling_source =
     \<lparr>def_modules = Several [mk_module ''a'' ''source'' (JObj []),
                              mk_module ''b'' ''transform'' (JObj [])],
      def_wires = Several [mk_wire ''w1'' ''z'' ''_OUTPUT'' ''b'' ''_INPUT'']\<rparr>"

text \<open>The environment \<open>env0\<close> with a sorter that returns the given order.\<close>

definition env_seq :: "string list \<Rightarrow> env" where
  "env_seq module_sequence = env0\<lparr>topological_sort := (\<lambda>g. Inr module_sequence)\<rparr>"

definition ctx_run :: run_context where
  "ctx_run = \<lparr>describe_input = False, verbose = False\<rparr>"

definition ctx_describe :: run_context where
  "ctx_describe = \<lparr>describe_input = True, verbose = False\<rparr>"

text \<open>The dict \<open>steps\<close> as line 152 creates it.\<close>

definition steps0 :: "pyval dict" where
  "steps0 = dict_set ''forever'' Forever []"

text \<open>The example of the specification: \<open>a:_OUTPUT \<rightarrow> b:_INPUT\<close>.\<close>

definition pipe_ab :: pipe where
  "pipe_ab =
     \<lparr>pipe_name = ''p'',
      pipe_modules = [(''a'', mk_module ''a'' ''source'' (JObj [])),
                      (''b'', mk_module ''b'' ''transform'' (JObj []))],
      pipe_embed = [],
      pipe_graph = [(''a'', [''b'']), (''b'', [])],
      pipe_wires = [(''w1'', mk_wire ''w1'' ''a'' ''_OUTPUT'' ''b'' ''_INPUT'')]\<rparr>"

text \<open>
  A loop \<open>l\<close> fed by \<open>a\<close>, with the embedded module \<open>e\<close>; the pipe is what
  \<open>parse_pipe_def\<close> returns for this document.
\<close>

definition embedded_e :: json where
  "embedded_e = JObj [(''id'', JStr ''e''), (''type'', JStr ''strconcat''), (''conf'', JObj [])]"

definition doc_loop :: pipe_def where
  "doc_loop =
     \<lparr>def_modules = Several [mk_module ''a'' ''fetch'' (JObj []),
                              mk_module ''l'' ''loop''
                                (JObj [(''embed'', JObj [(''value'', embedded_e)])])],
      def_wires = Single (mk_wire ''w1'' ''a'' ''_OUTPUT'' ''l'' ''_INPUT'')\<rparr>"

definition pipe_loop :: pipe where
  "pipe_loop =
     \<lparr>pipe_name = ''p'',
      pipe_modules = [(''a'', mk_module ''a'' ''fetch'' (JObj [])),
                      (''l'', mk_module ''l'' ''loop''
                                (JObj [(''embed'', JObj [(''value'', embedded_e)])])),
                      (''e'', embedded_e)],
      pipe_embed = [(''e'', embedded_e)],
      pipe_graph = [(''a'', [''l'']), (''l'', []), (''e'', [''l''])],
      pipe_wires = [(''w1'', mk_wire ''w1'' ''a'' ''_OUTPUT'' ''l'' ''_INPUT'')]\<rparr>"

text \<open>
  A loop whose embedded id \<open>e\<close> is registered again by a later module, and no wire.
\<close>

definition doc_loop_shadowed :: pipe_def where
  "doc_loop_shadowed =
     \<lparr>def_modules = Several [mk_module ''l'' ''loop''
                                (JObj [(''embed'', JObj [(''value'', embedded_e)])]),
                              mk_module ''e'' ''source'' (JObj [])],
      def_wires = Several []\<rparr>"

text \<open>A split \<open>s\<close> fed by \<open>a\<close>, with two outgoing default-output wires.\<close>

definition pipe_split :: pipe where
  "pipe_split =
     \<lparr>pipe_name = ''p'',
      pipe_modules = [(''a'', mk_module ''a'' ''fetch'' (JObj [])),
                      (''s'', mk_module ''s'' ''split'' (JObj [])),
                      (''b'', mk_module ''b'' ''sort'' (JObj [])),
                      (''c'', mk_module ''c'' ''uniq'' (JObj []))],
      pipe_embed = [],
      pipe_graph = [(''a'', [''s'']), (''s'', [''b'', ''c'']), (''b'', []), (''c'', [])],
      pipe_wires = [(''w1'', mk_wire ''w1'' ''a'' ''_OUTPUT'' ''s'' ''_INPUT''),
                    (''w2'', mk_wire ''w2'' ''s'' ''_OUTPUT'' ''b'' ''_INPUT''),
                    (''w3'', mk_wire ''w3'' ''s'' ''_OUTPUT2'' ''c'' ''_INPUT'')]\<rparr>"

text \<open>
  Two wires, from \<open>a\<close> and from \<open>b\<close>, to the same auxiliary port \<open>feed\<close> of \<open>m\<close>, and
  two wires, from \<open>a\<close> and from \<open>b\<close>, to the default input of \<open>n\<close>.
\<close>

definition pipe_two_wires :: pipe where
  "pipe_two_wires =
     \<lparr>pipe_name = ''p'',
      pipe_modules = [(''a'', mk_module ''a'' ''fetch'' (JObj [])),
                      (''b'', mk_module ''b'' ''fetch'' (JObj [])),
                      (''m'', mk_module ''m'' ''urlbuilder'' (JObj [])),
                      (''n'', mk_module ''n'' ''union'' (JObj []))],
      pipe_embed = [],
      pipe_graph = [(''a'', [''m'', ''n'']), (''b'', [''m'', ''n'']), (''m'', []), (''n'', [])],
      pipe_wires = [(''w1'', mk_wire ''w1'' ''a'' ''_OUTPUT'' ''m'' ''feed''),
                    (''w2'', mk_wire ''w2'' ''b'' ''_OUTPUT'' ''m'' ''feed''),
                    (''w3'', mk_wire ''w3'' ''a'' ''_OUTPUT'' ''n'' ''_INPUT''),
                    (''w4'', mk_wire ''w4'' ''b'' ''_OUTPUT'' ''n'' ''_INPUT'')]\<rparr>"

text \<open>Two text inputs with prompts, at positions 2 and 1, wired to an output.\<close>

definition prompt_conf :: "int \<Rightarrow> string \<Rightarrow> json" where
  "prompt_conf pos nm =
     JObj [(''position'', JObj [(''type'', JStr ''number''), (''value'', JInt pos)]),
           (''name'', JObj [(''type'', JStr ''text''), (''value'', JStr nm)]),
           (''prompt'', JObj [(''type'', JStr ''text''), (''value'', JStr ''Enter'')]),
           (''default'', JObj [(''type'', JStr ''text''), (''value'', JStr ''x'')])]"

definition pipe_prompts :: pipe where
  "pipe_prompts =
     \<lparr>pipe_name = ''p'',
      pipe_modules = [(''t1'', mk_module ''t1'' ''textinput'' (prompt_conf 2 ''first'')),
                      (''t2'', mk_module ''t2'' ''textinput'' (prompt_conf 1 ''second'')),
                      (''o'', mk_module ''o'' ''output'' (JObj []))],
      pipe_embed = [],
      pipe_graph = [(''t1'', [''o'']), (''t2'', [''o'']), (''o'', [])],
      pipe_wires = [(''w1'', mk_wire ''w1'' ''t1'' ''_OUTPUT'' ''o'' ''_INPUT''),
                    (''w2'', mk_wire ''w2'' ''t2'' ''_OUTPUT'' ''o'' ''feed'')]\<rparr>"

section \<open>Predicates of the statements\<close>

text \<open>
  A scheduled module declares an input when it is registered and its configuration has
  a \<open>prompt\<close> entry; a declared input has an integer position; two declared inputs are
  in ascending order of integer position.
\<close>

definition declares_prompt :: "pipe \<Rightarrow> string \<Rightarrow> bool" where
  "declares_prompt pipe module_id =
     (case dict_get (pipe_modules pipe) module_id of
        Inl e \<Rightarrow> False
      | Inr m \<Rightarrow> module_has_prompt m = Inr True)"

definition declared_by :: "pipe \<Rightarrow> pyinput \<Rightarrow> string \<Rightarrow> bool" where
  "declared_by pipe t module_id =
     (case dict_get (pipe_modules pipe) module_id of
        Inl e \<Rightarrow> False
      | Inr m \<Rightarrow> module_input_tuple m = Inr t)"

definition int_position :: "pyinput \<Rightarrow> bool" where
  "int_position t = (case fst t of JInt i \<Rightarrow> True | _ \<Rightarrow> False)"

definition position_le :: "pyinput \<Rightarrow> pyinput \<Rightarrow> bool" where
  "position_le s t = (case (fst s, fst t) of (JInt i, JInt j) \<Rightarrow> i \<le> j | _ \<Rightarrow> False)"

text \<open>The graph has the edge from \<open>u\<close> to \<open>v\<close>.\<close>

definition has_edge :: "string list dict \<Rightarrow> string \<Rightarrow> string \<Rightarrow> bool" where
  "has_edge g u v = (case map_of g u of None \<Rightarrow> False | Some succs \<Rightarrow> v \<in> set succs)"

text \<open>
  Modelled from the spec: \<open>topological_sort\<close> is not among the sources, and the
  contract of the Topological Sorter (section 4.2) is to "produce a total order over all
  module ids such that for every edge u\<rightarrow>v, u precedes v", or to fail. An order
  that the sorter returns for a graph therefore holds the target of every edge of the
  graph.
\<close>

definition schedules_edges :: "string list dict \<Rightarrow> string list \<Rightarrow> bool" where
  "schedules_edges g module_sequence =
     list_all (\<lambda>(k, succs). list_all (\<lambda>v. v \<in> set module_sequence) succs) g"

text \<open>
  A loop whose embedded module has an id and nothing else, wired from the embedded
  module to the loop.
\<close>

definition doc_bare_embedded :: pipe_def where
  "doc_bare_embedded =
     \<lparr>def_modules = Single (mk_module ''l'' ''loop''
                               (JObj [(''embed'', JObj [(''value'', JObj [(''id'', JStr ''e'')])])])),
      def_wires = Single (mk_wire ''w1'' ''e'' ''_OUTPUT'' ''l'' ''_INPUT'')\<rparr>"
section \<open>Properties of parse\_pipe\_def\<close>

subsection \<open>Dict and graph helpers\<close>

lemma any_targetted: "any (targetted node g) = (\<exists>(k, succs) \<in> set g. node \<in> set succs)"
  by (auto simp: any_def targetted_def)

lemma set_dict_del: "set (dict_del x g) = {kv \<in> set g. fst kv \<noteq> x}"
  by (auto simp: dict_del_def AList.delete_eq)

lemma dict_del_filter: "dict_del x g = filter (\<lambda>(k, s). k \<noteq> x) g"
  unfolding dict_del_def AList.delete_eq by (rule filter_cong) auto

lemma orphan_dict_del:
  assumes "distinct (map fst g)" "orphan x g" "y \<noteq> x"
  shows "orphan y (dict_del x g) = orphan y g"
proof -
  from assms(2) have x: "map_of g x = Some []" by (simp add: orphan_def)
  have m: "map_of (dict_del x g) y = map_of g y"
    using assms(3) by (simp add: dict_del_def)
  have "(\<forall>(k, succs) \<in> set (dict_del x g). y \<notin> set succs) = (\<forall>(k, succs) \<in> set g. y \<notin> set succs)"
  proof
    assume a: "\<forall>(k, succs) \<in> set (dict_del x g). y \<notin> set succs"
    show "\<forall>(k, succs) \<in> set g. y \<notin> set succs"
    proof (clarify)
      fix k succs assume ks: "(k, succs) \<in> set g" and y: "y \<in> set succs"
      show False
      proof (cases "k = x")
        case True
        with ks assms(1) x have "succs = []" by simp
        with y show False by simp
      next
        case False
        with ks have "(k, succs) \<in> set (dict_del x g)" by (simp add: set_dict_del)
        with a y show False by auto
      qed
    qed
  next
    assume "\<forall>(k, succs) \<in> set g. y \<notin> set succs"
    then show "\<forall>(k, succs) \<in> set (dict_del x g). y \<notin> set succs"
      by (auto simp: set_dict_del)
  qed
  with m show ?thesis by (simp add: orphan_def)
qed

lemma remove_orphans_filter:
  "distinct (map fst g) \<Longrightarrow> distinct nodes \<Longrightarrow> set nodes \<subseteq> fst ` set g \<Longrightarrow>
   remove_orphans nodes g = Inr (filter (\<lambda>(k, s). \<not> (k \<in> set nodes \<and> orphan k g)) g)"
proof (induction nodes arbitrary: g)
  case Nil
  then show ?case by simp
next
  case (Cons node nodes)
  from Cons.prems obtain succs where s: "map_of g node = Some succs"
  proof -
    from Cons.prems(3) have "node \<in> fst ` set g" by simp
    then obtain v where "(node, v) \<in> set g" by auto
    with Cons.prems(1) show ?thesis using that by (auto dest: map_of_is_SomeI)
  qed
  show ?case
  proof (cases "orphan node g")
    case True
    have d: "distinct (map fst (dict_del node g))"
      using Cons.prems(1) by (simp add: dict_del_def distinct_delete)
    have sub: "set nodes \<subseteq> fst ` set (dict_del node g)"
    proof
      fix x assume x: "x \<in> set nodes"
      with Cons.prems(2) have ne: "x \<noteq> node" by auto
      from x Cons.prems(3) obtain v where "(x, v) \<in> set g" by auto
      with ne have "(x, v) \<in> set (dict_del node g)" by (simp add: set_dict_del)
      then show "x \<in> fst ` set (dict_del node g)" by force
    qed
    have ih: "remove_orphans nodes (dict_del node g) =
        Inr (filter (\<lambda>(k, s). \<not> (k \<in> set nodes \<and> orphan k (dict_del node g))) (dict_del node g))"
      using Cons.IH[OF d _ sub] Cons.prems(2) by simp
    have eq: "filter (\<lambda>(k, s). \<not> (k \<in> set nodes \<and> orphan k (dict_del node g))) (dict_del node g)
        = filter (\<lambda>(k, s). \<not> (k \<in> set (node # nodes) \<and> orphan k g)) g"
    proof -
      have nn: "node \<notin> set nodes" using Cons.prems(2) by simp
      have o: "\<And>k. k \<noteq> node \<Longrightarrow> orphan k (dict_del node g) = orphan k g"
        by (rule orphan_dict_del[OF Cons.prems(1) True])
      have "filter (\<lambda>(k, s). \<not> (k \<in> set nodes \<and> orphan k (dict_del node g))) (dict_del node g)
          = filter (\<lambda>(k, s). \<not> (k \<in> set nodes \<and> orphan k (dict_del node g)) \<and> k \<noteq> node) g"
        unfolding dict_del_filter filter_filter by (rule filter_cong) auto
      also have "\<dots> = filter (\<lambda>(k, s). \<not> (k \<in> set (node # nodes) \<and> orphan k g)) g"
      proof (rule filter_cong[OF refl])
        fix kv assume "kv \<in> set g"
        obtain k s where kv: "kv = (k, s)" by (cases kv)
        show "(case kv of (k, s) \<Rightarrow> \<not> (k \<in> set nodes \<and> orphan k (dict_del node g)) \<and> k \<noteq> node)
            = (case kv of (k, s) \<Rightarrow> \<not> (k \<in> set (node # nodes) \<and> orphan k g))"
        proof (cases "k = node")
          case True
          then show ?thesis using kv \<open>orphan node g\<close> by simp
        next
          case False
          then show ?thesis using kv o[OF False] by simp
        qed
      qed
      finally show ?thesis .
    qed
    from True s have "succs = [] \<and> \<not> any (targetted node g)"
      by (auto simp: orphan_def any_targetted)
    then show ?thesis using s ih eq by (simp add: dict_get_def)
  next
    case False
    have ih: "remove_orphans nodes g = Inr (filter (\<lambda>(k, s). \<not> (k \<in> set nodes \<and> orphan k g)) g)"
      using Cons.IH[OF Cons.prems(1)] Cons.prems(2,3) by simp
    have eq: "filter (\<lambda>(k, s). \<not> (k \<in> set nodes \<and> orphan k g)) g
        = filter (\<lambda>(k, s). \<not> (k \<in> set (node # nodes) \<and> orphan k g)) g"
      by (rule filter_cong) (auto simp: False)
    from False s have "\<not> (succs = [] \<and> \<not> any (targetted node g))"
      by (auto simp: orphan_def any_targetted)
    then show ?thesis using s ih eq by (auto simp add: dict_get_def)
  qed
qed

lemma dict_set_keys_set: "fst ` set (dict_set k v d) = insert k (fst ` set d)"
  by (simp add: dict_set_def dom_update)

lemma dict_set_distinct: "distinct (map fst d) \<Longrightarrow> distinct (map fst (dict_set k v d))"
  by (simp add: dict_set_def distinct_update)

lemma dict_get_KeyError: "k \<notin> fst ` set d \<Longrightarrow> dict_get d k = Inl KeyError"
proof -
  assume "k \<notin> fst ` set d"
  then have "map_of d k = None" by (simp add: map_of_eq_None_iff)
  then show ?thesis by (simp add: dict_get_def)
qed

lemma dict_get_Inr_key: "dict_get d k = Inr v \<Longrightarrow> k \<in> fst ` set d"
proof (rule ccontr)
  assume a: "dict_get d k = Inr v" and "k \<notin> fst ` set d"
  then have "dict_get d k = Inl KeyError" by (simp add: dict_get_KeyError)
  with a show False by simp
qed

lemma dict_get_error: "dict_get d k = Inl e \<Longrightarrow> e = KeyError"
  by (cases "map_of d k") (simp_all add: dict_get_def)

lemma graph_append_keys:
  assumes "graph_append k x g = Inr g'"
  shows "map fst g' = map fst g"
proof (cases "dict_get g k")
  case (Inl e)
  with assms show ?thesis by (simp add: graph_append_def)
next
  case (Inr succs)
  then have "k \<in> fst ` set g" by (rule dict_get_Inr_key)
  moreover from assms Inr have "g' = dict_set k (succs @ [x]) g" by (simp add: graph_append_def)
  ultimately show ?thesis by (simp add: dict_set_def update_keys)
qed

lemma graph_append_KeyError: "k \<notin> fst ` set g \<Longrightarrow> graph_append k x g = Inl KeyError"
  by (simp add: graph_append_def dict_get_KeyError)

lemma graph_append_error: "graph_append k x g = Inl e \<Longrightarrow> e = KeyError"
  by (cases "dict_get g k") (simp_all add: graph_append_def dict_get_error)

lemma add_edges_keys: "add_edges env ws g = Inr g' \<Longrightarrow> map fst g' = map fst g"
proof (induction ws arbitrary: g)
  case Nil
  then show ?case by simp
next
  case (Cons w ws)
  show ?case
  proof (cases "graph_append (pythonise env (moduleid (src w))) (pythonise env (moduleid (tgt w))) g")
    case (Inl e)
    with Cons.prems show ?thesis by simp
  next
    case (Inr g1)
    with Cons.prems have "add_edges env ws g1 = Inr g'" by simp
    then have "map fst g' = map fst g1" by (rule Cons.IH)
    also have "map fst g1 = map fst g" using Inr by (rule graph_append_keys)
    finally show ?thesis .
  qed
qed

lemma add_edges_error: "add_edges env ws g = Inl e \<Longrightarrow> e = KeyError"
proof (induction ws arbitrary: g)
  case Nil
  then show ?case by simp
next
  case (Cons w ws)
  show ?case
  proof (cases "graph_append (pythonise env (moduleid (src w))) (pythonise env (moduleid (tgt w))) g")
    case (Inl e')
    then have "e' = KeyError" by (rule graph_append_error)
    with Inl Cons.prems show ?thesis by simp
  next
    case (Inr g1)
    with Cons.prems have "add_edges env ws g1 = Inl e" by simp
    then show ?thesis by (rule Cons.IH)
  qed
qed

lemma add_edges_dangling_source:
  "w \<in> set ws \<Longrightarrow> pythonise env (moduleid (src w)) \<notin> fst ` set g \<Longrightarrow>
   add_edges env ws g = Inl KeyError"
proof (induction ws arbitrary: g)
  case Nil
  then show ?case by simp
next
  case (Cons a ws)
  show ?case
  proof (cases "graph_append (pythonise env (moduleid (src a))) (pythonise env (moduleid (tgt a))) g")
    case (Inl e)
    then have "e = KeyError" by (rule graph_append_error)
    with Inl show ?thesis by simp
  next
    case (Inr g1)
    then have k: "map fst g1 = map fst g" by (rule graph_append_keys)
    have "set (map fst g1) = set (map fst g)" by (simp only: k)
    then have ks: "fst ` set g1 = fst ` set g" by (simp only: set_map)
    have "w \<noteq> a"
    proof
      assume "w = a"
      with Cons.prems(2) have "graph_append (pythonise env (moduleid (src a))) (pythonise env (moduleid (tgt a))) g = Inl KeyError"
        by (simp add: graph_append_KeyError)
      with Inr show False by simp
    qed
    with Cons.prems(1) have "w \<in> set ws" by simp
    moreover have "pythonise env (moduleid (src w)) \<notin> fst ` set g1"
      unfolding ks by (rule Cons.prems(2))
    ultimately have "add_edges env ws g1 = Inl KeyError" by (rule Cons.IH)
    with Inr show ?thesis by simp
  qed
qed

lemma register_module_graph:
  assumes "register_module env m p = Inr p'"
  shows "fst ` set (pipe_graph p') = fst ` set (pipe_graph p) \<union> set (module_ids env m)
      \<and> (distinct (map fst (pipe_graph p)) \<longrightarrow> distinct (map fst (pipe_graph p')))
      \<and> fst ` set (pipe_modules p') = fst ` set (pipe_modules p) \<union> set (module_ids env m)"
proof -
  from assms obtain mid where mid: "module_key env m = Inr mid"
    by (cases "module_key env m") (simp_all add: register_module_def)
  from assms mid obtain t where t: "mod_type m = Inr t"
    by (cases "mod_type m") (simp_all add: register_module_def Let_def)
  show ?thesis
  proof (cases "t = JStr ''loop''")
    case False
    with assms mid t have p': "p' = p\<lparr>pipe_modules := dict_set mid m (pipe_modules p),
                 pipe_graph := dict_set mid [] (pipe_graph p)\<rparr>"
      by (simp add: register_module_def Let_def)
    have ids: "module_ids env m = [mid]"
      using False mid t by (simp add: module_ids_def)
    show ?thesis unfolding p' ids
      by (simp add: dict_set_keys_set dict_set_distinct)
  next
    case True
    from True assms mid t obtain em where em: "embed_value m = Inr em"
      by (cases "embed_value m") (simp_all add: register_module_def Let_def)
    from True assms mid t em obtain eid where eid: "module_key env em = Inr eid"
      by (cases "module_key env em") (simp_all add: register_module_def Let_def)
    let ?gr = "dict_set eid [] (dict_set mid [] (pipe_graph p))"
    from True assms mid t em eid obtain g where g: "graph_append eid mid ?gr = Inr g"
      and pg: "pipe_graph p' = g"
      and pm: "pipe_modules p' = dict_set eid em (dict_set mid m (pipe_modules p))"
      by (cases "graph_append eid mid ?gr") (auto simp add: register_module_def Let_def)
    from g have k: "map fst g = map fst ?gr" by (rule graph_append_keys)
    have "set (map fst g) = set (map fst ?gr)" by (simp only: k)
    then have ks: "fst ` set g = insert eid (insert mid (fst ` set (pipe_graph p)))"
      by (simp only: set_map dict_set_keys_set)
    have d: "distinct (map fst (pipe_graph p)) \<longrightarrow> distinct (map fst (pipe_graph p'))"
      unfolding pg k by (simp add: dict_set_distinct)
    have ids: "set (module_ids env m) = {mid, eid}"
      using True mid t em eid by (simp add: module_ids_def)
    have 1: "fst ` set (pipe_graph p') = fst ` set (pipe_graph p) \<union> set (module_ids env m)"
      unfolding pg ks ids by (simp add: insert_commute)
    have 3: "fst ` set (pipe_modules p') = fst ` set (pipe_modules p) \<union> set (module_ids env m)"
      unfolding pm ids by (simp add: dict_set_keys_set insert_commute)
    show ?thesis by (rule conjI[OF 1 conjI[OF d 3]])
  qed
qed

lemma register_modules_graph:
  "register_modules env ms p = Inr p' \<Longrightarrow>
     fst ` set (pipe_graph p') = fst ` set (pipe_graph p) \<union> set (registered_ids env ms)
   \<and> (distinct (map fst (pipe_graph p)) \<longrightarrow> distinct (map fst (pipe_graph p')))
   \<and> fst ` set (pipe_modules p') = fst ` set (pipe_modules p) \<union> set (registered_ids env ms)"
proof (induction ms arbitrary: p)
  case Nil
  then show ?case by simp
next
  case (Cons m ms)
  from Cons.prems obtain q where q: "register_module env m p = Inr q"
    and r: "register_modules env ms q = Inr p'"
    by (cases "register_module env m p") simp_all
  note A = register_module_graph[OF q]
  note a1 = A[THEN conjunct1] and a2 = A[THEN conjunct2, THEN conjunct1]
    and a3 = A[THEN conjunct2, THEN conjunct2]
  note B = Cons.IH[OF r]
  note b1 = B[THEN conjunct1] and b2 = B[THEN conjunct2, THEN conjunct1]
    and b3 = B[THEN conjunct2, THEN conjunct2]
  have 1: "fst ` set (pipe_graph p') = fst ` set (pipe_graph p) \<union> set (registered_ids env (m # ms))"
    unfolding b1 a1 by (simp add: Un_assoc)
  have 3: "fst ` set (pipe_modules p') = fst ` set (pipe_modules p) \<union> set (registered_ids env (m # ms))"
    unfolding b3 a3 by (simp add: Un_assoc)
  have 2: "distinct (map fst (pipe_graph p)) \<longrightarrow> distinct (map fst (pipe_graph p'))"
    using a2 b2 by (rule_tac impI) simp
  show ?case by (rule conjI[OF 1 conjI[OF 2 3]])
qed
subsection \<open>Orphan pruning\<close>

lemma parse_before_pruning_inv:
  assumes "parse_before_pruning env d nm = Inr p0"
  shows "distinct (map fst (pipe_graph p0))"
    and "fst ` set (pipe_graph p0) = set (registered_ids env (as_list (def_modules d)))"
    and "fst ` set (pipe_modules p0) = set (registered_ids env (as_list (def_modules d)))"
proof -
  let ?ms = "as_list (def_modules d)"
  from assms obtain p1 where p1: "register_modules env ?ms (empty_pipe env nm) = Inr p1"
    by (cases "register_modules env ?ms (empty_pipe env nm)")
       (simp_all add: parse_before_pruning_def)
  from assms p1 obtain g where g: "add_edges env (as_list (def_wires d)) (pipe_graph p1) = Inr g"
    and p0: "p0 = p1\<lparr>pipe_graph := g\<rparr>"
    by (cases "add_edges env (as_list (def_wires d)) (pipe_graph p1)")
       (simp_all add: parse_before_pruning_def)
  note R = register_modules_graph[OF p1]
  have r1: "fst ` set (pipe_graph p1) = set (registered_ids env ?ms)"
    using R[THEN conjunct1] by (simp add: empty_pipe_def)
  have r2: "distinct (map fst (pipe_graph p1))"
    using R[THEN conjunct2, THEN conjunct1] by (simp add: empty_pipe_def)
  have r3: "fst ` set (pipe_modules p1) = set (registered_ids env ?ms)"
    using R[THEN conjunct2, THEN conjunct2] by (simp add: empty_pipe_def)
  from g have k: "map fst g = map fst (pipe_graph p1)" by (rule add_edges_keys)
  have "set (map fst g) = set (map fst (pipe_graph p1))" by (simp only: k)
  then have ks: "fst ` set g = fst ` set (pipe_graph p1)" by (simp only: set_map)
  show "distinct (map fst (pipe_graph p0))" using r2 by (simp add: p0 k)
  show "fst ` set (pipe_graph p0) = set (registered_ids env ?ms)" using r1 by (simp add: p0 ks)
  show "fst ` set (pipe_modules p0) = set (registered_ids env ?ms)" using r3 by (simp add: p0)
qed

lemma orphan_key: "orphan node g \<Longrightarrow> node \<in> fst ` set g"
proof -
  assume "orphan node g"
  then have "map_of g node = Some []" by (simp add: orphan_def)
  then have "(node, []) \<in> set g" by (rule map_of_SomeD)
  then show ?thesis by force
qed

lemma parse_pipe_def_result:
  assumes "parse_before_pruning env d nm = Inr p0"
  shows "parse_pipe_def env d nm =
           Inr (p0\<lparr>pipe_graph := filter (\<lambda>(k, s). \<not> orphan k (pipe_graph p0)) (pipe_graph p0),
                   pipe_wires := register_wires env (as_list (def_wires d)) (pipe_wires p0)\<rparr>)"
proof -
  let ?before = "pipe_graph p0"
  let ?pruned = "filter (\<lambda>(k, s). \<not> orphan k ?before) ?before"
  note inv = parse_before_pruning_inv[OF assms]
  have "remove_orphans (keys ?before) ?before =
          Inr (filter (\<lambda>(k, s). \<not> (k \<in> set (keys ?before) \<and> orphan k ?before)) ?before)"
    by (rule remove_orphans_filter[of ?before "keys ?before"]) (simp_all add: inv(1) keys_def)
  also have "filter (\<lambda>(k, s). \<not> (k \<in> set (keys ?before) \<and> orphan k ?before)) ?before = ?pruned"
  proof (rule filter_cong[OF refl])
    fix kv assume "kv \<in> set ?before"
    then have "fst kv \<in> set (keys ?before)" by (simp add: keys_def)
    then show "(case kv of (k, s) \<Rightarrow> \<not> (k \<in> set (keys ?before) \<and> orphan k ?before))
             = (case kv of (k, s) \<Rightarrow> \<not> orphan k ?before)"
      by (cases kv) simp
  qed
  finally have ro: "remove_orphans (keys ?before) ?before = Inr ?pruned" .
  show ?thesis using assms ro by (simp add: parse_pipe_def_def)
qed

text \<open>
  Claim C6. Once the modules are registered and the edges added, \<open>parse_pipe_def\<close>
  returns a pipe whose graph is the graph before pruning without its orphans (the nodes
  with an empty successor list that occur in no successor list), and whose modules
  table is the one before pruning: an orphan is no key of the returned graph and is
  still a key of the modules table.
\<close>

theorem orphans_pruned_modules_kept:
  assumes "parse_before_pruning env d nm = Inr p0"
  shows "\<exists>p. parse_pipe_def env d nm = Inr p
           \<and> pipe_modules p = pipe_modules p0
           \<and> pipe_graph p = filter (\<lambda>(k, s). \<not> orphan k (pipe_graph p0)) (pipe_graph p0)
           \<and> (\<forall>node. orphan node (pipe_graph p0) \<longrightarrow>
                  node \<notin> set (keys (pipe_graph p)) \<and> node \<in> set (keys (pipe_modules p)))"
proof -
  let ?before = "pipe_graph p0"
  let ?pruned = "filter (\<lambda>(k, s). \<not> orphan k ?before) ?before"
  note inv = parse_before_pruning_inv[OF assms]
  let ?res = "p0\<lparr>pipe_graph := ?pruned,
               pipe_wires := register_wires env (as_list (def_wires d)) (pipe_wires p0)\<rparr>"
  have pp: "parse_pipe_def env d nm = Inr ?res"
    by (rule parse_pipe_def_result[OF assms])
  have "\<forall>node. orphan node ?before \<longrightarrow>
          node \<notin> set (keys (pipe_graph ?res)) \<and> node \<in> set (keys (pipe_modules ?res))"
  proof (intro allI impI conjI)
    fix node assume o: "orphan node ?before"
    show "node \<notin> set (keys (pipe_graph ?res))"
    proof
      assume "node \<in> set (keys (pipe_graph ?res))"
      then obtain s where "(node, s) \<in> set ?pruned" by (auto simp: keys_def)
      then have "\<not> orphan node ?before" by simp
      with o show False by simp
    qed
    from o have "node \<in> fst ` set ?before" by (rule orphan_key)
    then have "node \<in> fst ` set (pipe_modules p0)" by (simp only: inv(2) inv(3))
    then show "node \<in> set (keys (pipe_modules ?res))" by (simp add: keys_def)
  qed
  with pp show ?thesis by simp
qed

text \<open>The module \<open>c\<close> of \<open>doc_abc\<close> is such an orphan.\<close>

lemma orphan_abc: "orphan ''c'' [(''a'', [''b'']), (''b'', []), (''c'', [])]"
  by (simp add: orphan_def)

theorem orphans_pruned_modules_kept_witness:
  "parse_before_pruning env0 doc_abc ''p'' =
     Inr \<lparr>pipe_name = ''p'',
          pipe_modules = [(''a'', mk_module ''a'' ''source'' (JObj [])),
                          (''b'', mk_module ''b'' ''transform'' (JObj [])),
                          (''c'', mk_module ''c'' ''source'' (JObj []))],
          pipe_embed = [],
          pipe_graph = [(''a'', [''b'']), (''b'', []), (''c'', [])],
          pipe_wires = []\<rparr>
   \<and> orphan ''c'' [(''a'', [''b'']), (''b'', []), (''c'', [])]
   \<and> (\<exists>p. parse_pipe_def env0 doc_abc ''p'' = Inr p
          \<and> ''c'' \<notin> set (keys (pipe_graph p)) \<and> ''c'' \<in> set (keys (pipe_modules p)))"
proof -
  let ?pz = "\<lparr>pipe_name = ''p'',
          pipe_modules = [(''a'', mk_module ''a'' ''source'' (JObj [])),
                          (''b'', mk_module ''b'' ''transform'' (JObj [])),
                          (''c'', mk_module ''c'' ''source'' (JObj []))],
          pipe_embed = [],
          pipe_graph = [(''a'', [''b'']), (''b'', []), (''c'', [])],
          pipe_wires = []\<rparr>"
  have h: "parse_before_pruning env0 doc_abc ''p'' = Inr ?pz" by code_simp
  from orphans_pruned_modules_kept[OF h] orphan_abc h show ?thesis by auto
qed

text \<open>
  The embedded module of a loop is registered from its id alone: \<open>doc_bare_embedded\<close>
  is parsed, and both \<open>e\<close> and \<open>l\<close> stay in the graph.
\<close>

lemma bare_embedded_is_registered:
  "registered_ids env0 (as_list (def_modules doc_bare_embedded)) = [''l'', ''e'']
   \<and> \<not> isl (parse_pipe_def env0 doc_bare_embedded ''p'')
   \<and> pipe_graph (projr (parse_pipe_def env0 doc_bare_embedded ''p''))
       = [(''l'', []), (''e'', [''l'', ''l''])]
   \<and> keys (pipe_embed (projr (parse_pipe_def env0 doc_bare_embedded ''p''))) = [''e'']"
  by code_simp
subsection \<open>Wires that name no registered module\<close>

lemma graph_append_has_edge:
  assumes "graph_append k x g = Inr g'"
  shows "has_edge g' k x" and "has_edge g u v \<Longrightarrow> has_edge g' u v"
proof -
  from assms obtain succs where s: "dict_get g k = Inr succs"
    and g': "g' = dict_set k (succs @ [x]) g"
    by (cases "dict_get g k") (simp_all add: graph_append_def)
  from s have m: "map_of g k = Some succs"
    by (cases "map_of g k") (simp_all add: dict_get_def)
  have u: "map_of g' = (map_of g)(k \<mapsto> succs @ [x])"
    unfolding g' dict_set_def by (rule update_conv')
  show "has_edge g' k x" by (simp add: has_edge_def u)
  show "has_edge g u v \<Longrightarrow> has_edge g' u v"
    using m by (cases "u = k") (simp_all add: has_edge_def u)
qed

lemma add_edges_keeps_edge:
  "add_edges env ws g = Inr g' \<Longrightarrow> has_edge g u v \<Longrightarrow> has_edge g' u v"
proof (induction ws arbitrary: g)
  case Nil
  then show ?case by simp
next
  case (Cons a ws)
  from Cons.prems(1) obtain g1 where
    a: "graph_append (pythonise env (moduleid (src a))) (pythonise env (moduleid (tgt a))) g = Inr g1"
    and r: "add_edges env ws g1 = Inr g'"
    by (cases "graph_append (pythonise env (moduleid (src a))) (pythonise env (moduleid (tgt a))) g")
       simp_all
  from Cons.prems(2) have "has_edge g1 u v" by (rule graph_append_has_edge(2)[OF a])
  with r show ?case by (rule Cons.IH)
qed

lemma add_edges_has_edge:
  "add_edges env ws g = Inr g' \<Longrightarrow> w \<in> set ws \<Longrightarrow>
   has_edge g' (pythonise env (moduleid (src w))) (pythonise env (moduleid (tgt w)))"
proof (induction ws arbitrary: g)
  case Nil
  then show ?case by simp
next
  case (Cons a ws)
  from Cons.prems(1) obtain g1 where
    a: "graph_append (pythonise env (moduleid (src a))) (pythonise env (moduleid (tgt a))) g = Inr g1"
    and r: "add_edges env ws g1 = Inr g'"
    by (cases "graph_append (pythonise env (moduleid (src a))) (pythonise env (moduleid (tgt a))) g")
       simp_all
  show ?case
  proof (cases "w = a")
    case True
    have "has_edge g1 (pythonise env (moduleid (src a))) (pythonise env (moduleid (tgt a)))"
      by (rule graph_append_has_edge(1)[OF a])
    with r True show ?thesis by (simp add: add_edges_keeps_edge)
  next
    case False
    with Cons.prems(2) have "w \<in> set ws" by simp
    with r show ?thesis by (rule Cons.IH)
  qed
qed

lemma schedules_edges_member:
  assumes "schedules_edges g module_sequence" and "(u, succs) \<in> set g" and "v \<in> set succs"
  shows "v \<in> set module_sequence"
proof -
  from assms(1) have "\<forall>kv \<in> set g. case kv of (k, ss) \<Rightarrow> \<forall>x \<in> set ss. x \<in> set module_sequence"
    by (simp add: schedules_edges_def list_all_iff case_prod_beta)
  with assms(2) have "\<forall>x \<in> set succs. x \<in> set module_sequence" by fastforce
  with assms(3) show ?thesis by simp
qed

lemma first_pass_unregistered:
  "z \<in> set module_sequence \<Longrightarrow> dict_get (pipe_modules pipe) z = Inl KeyError \<Longrightarrow>
   isl (first_pass env ctx pipe module_sequence pyinput)"
proof (induction module_sequence arbitrary: pyinput)
  case Nil
  then show ?case by simp
next
  case (Cons x xs)
  show ?case
  proof (cases "x = z")
    case True
    with Cons.prems(2) show ?thesis by simp
  next
    case False
    with Cons.prems(1) have "z \<in> set xs" by simp
    then have ih: "\<And>acc. isl (first_pass env ctx pipe xs acc)"
      using Cons.prems(2) by (rule Cons.IH)
    show ?thesis
      by (simp add: ih split: sum.splits)
  qed
qed

lemma first_pass_str_unregistered:
  "z \<in> set module_sequence \<Longrightarrow> dict_get (pipe_modules pipe) z = Inl KeyError \<Longrightarrow>
   isl (first_pass_str env pipe module_sequence pypipe pyinput)"
proof (induction module_sequence arbitrary: pypipe pyinput)
  case Nil
  then show ?case by simp
next
  case (Cons x xs)
  show ?case
  proof (cases "x = z")
    case True
    with Cons.prems(2) show ?thesis by simp
  next
    case False
    with Cons.prems(1) have "z \<in> set xs" by simp
    then have ih: "\<And>t acc. isl (first_pass_str env pipe xs t acc)"
      using Cons.prems(2) by (rule Cons.IH)
    show ?thesis
      by (simp add: ih split: sum.splits)
  qed
qed

lemma dangling_source_is_key_error:
  assumes "w \<in> set (as_list (def_wires d))"
    and "pythonise env (moduleid (src w)) \<notin> set (registered_ids env (as_list (def_modules d)))"
  shows "isl (parse_pipe_def env d nm)"
proof (cases "register_modules env (as_list (def_modules d)) (empty_pipe env nm)")
  case (Inl e)
  then show ?thesis by (simp add: parse_pipe_def_def parse_before_pruning_def)
next
  case (Inr p1)
  have "fst ` set (pipe_graph p1) = set (registered_ids env (as_list (def_modules d)))"
    using register_modules_graph[OF Inr, THEN conjunct1] by (simp add: empty_pipe_def)
  with assms(2) have "pythonise env (moduleid (src w)) \<notin> fst ` set (pipe_graph p1)"
    by simp
  with assms(1) have "add_edges env (as_list (def_wires d)) (pipe_graph p1) = Inl KeyError"
    by (rule add_edges_dangling_source)
  with Inr show ?thesis by (simp add: parse_pipe_def_def parse_before_pruning_def)
qed

lemma dangling_target_is_scheduled:
  assumes w: "w \<in> set (as_list (def_wires d))"
    and pp: "parse_pipe_def env d nm = Inr pipe"
    and sch: "schedules_edges (pipe_graph pipe) module_sequence"
  shows "pythonise env (moduleid (tgt w)) \<in> set module_sequence"
proof -
  let ?u = "pythonise env (moduleid (src w))"
  let ?v = "pythonise env (moduleid (tgt w))"
  from pp obtain p0 where p0: "parse_before_pruning env d nm = Inr p0"
    by (cases "parse_before_pruning env d nm") (simp_all add: parse_pipe_def_def)
  from p0 obtain p1 where p1: "register_modules env (as_list (def_modules d)) (empty_pipe env nm) = Inr p1"
    by (cases "register_modules env (as_list (def_modules d)) (empty_pipe env nm)")
       (simp_all add: parse_before_pruning_def)
  from p0 p1 obtain g where g: "add_edges env (as_list (def_wires d)) (pipe_graph p1) = Inr g"
    and gp: "pipe_graph p0 = g"
    by (cases "add_edges env (as_list (def_wires d)) (pipe_graph p1)")
       (auto simp add: parse_before_pruning_def)
  from add_edges_has_edge[OF g w] gp have "has_edge (pipe_graph p0) ?u ?v" by simp
  then obtain succs where m: "map_of (pipe_graph p0) ?u = Some succs" and v: "?v \<in> set succs"
    by (cases "map_of (pipe_graph p0) ?u") (simp_all add: has_edge_def)
  from m have mem: "(?u, succs) \<in> set (pipe_graph p0)" by (rule map_of_SomeD)
  from m v have "\<not> orphan ?u (pipe_graph p0)" by (auto simp: orphan_def)
  with mem have "(?u, succs) \<in> set (filter (\<lambda>(k, s). \<not> orphan k (pipe_graph p0)) (pipe_graph p0))"
    by simp
  moreover from parse_pipe_def_result[OF p0] pp
  have "pipe_graph pipe = filter (\<lambda>(k, s). \<not> orphan k (pipe_graph p0)) (pipe_graph p0)"
    by auto
  ultimately have "(?u, succs) \<in> set (pipe_graph pipe)" by simp
  with sch show ?thesis using v by (rule schedules_edges_member)
qed

lemma parsed_modules_keys:
  assumes "parse_pipe_def env d nm = Inr pipe"
  shows "fst ` set (pipe_modules pipe) = set (registered_ids env (as_list (def_modules d)))"
proof -
  from assms obtain p0 where p0: "parse_before_pruning env d nm = Inr p0"
    by (cases "parse_before_pruning env d nm") (simp_all add: parse_pipe_def_def)
  from parse_pipe_def_result[OF p0] assms have "pipe_modules pipe = pipe_modules p0" by auto
  with parse_before_pruning_inv(3)[OF p0] show ?thesis by simp
qed

text \<open>
  Claim C10. Let a wire of the document name, as its source or as its target, a module
  id that the document does not register, and let the sorter keep its contract on the
  parsed graph. Then either \<open>parse_pipe_def\<close> raises, or it returns a pipe on which
  \<open>stringify_pipe\<close> raises and \<open>build_pipeline\<close> raises with the dict \<open>steps\<close> never
  created: no step is instantiated and no pipeline is returned.
\<close>

theorem dangling_wire_raises:
  assumes "w \<in> set (as_list (def_wires d))"
    and "pythonise env (moduleid (src w)) \<notin> set (registered_ids env (as_list (def_modules d)))
         \<or> pythonise env (moduleid (tgt w)) \<notin> set (registered_ids env (as_list (def_modules d)))"
    and "\<forall>pipe module_sequence.
           parse_pipe_def env d nm = Inr pipe
           \<longrightarrow> topological_sort env (pipe_graph pipe) = Inr module_sequence
           \<longrightarrow> schedules_edges (pipe_graph pipe) module_sequence"
  shows "isl (parse_pipe_def env d nm)
       \<or> (isl (stringify_pipe env ctx (projr (parse_pipe_def env d nm)))
          \<and> isl (snd (build_pipeline env ctx (projr (parse_pipe_def env d nm))))
          \<and> fst (build_pipeline env ctx (projr (parse_pipe_def env d nm))) = [])"
proof (cases "parse_pipe_def env d nm")
  case (Inl e)
  then show ?thesis by simp
next
  case (Inr pipe)
  let ?z = "pythonise env (moduleid (tgt w))"
  have src_ok: "pythonise env (moduleid (src w)) \<in> set (registered_ids env (as_list (def_modules d)))"
  proof (rule ccontr)
    assume "\<not> ?thesis"
    with assms(1) have "isl (parse_pipe_def env d nm)" by (rule dangling_source_is_key_error)
    with Inr show False by simp
  qed
  with assms(2) have "?z \<notin> set (registered_ids env (as_list (def_modules d)))" by blast
  then have "?z \<notin> fst ` set (pipe_modules pipe)"
    unfolding parsed_modules_keys[OF Inr] .
  then have unreg: "dict_get (pipe_modules pipe) ?z = Inl KeyError" by (rule dict_get_KeyError)
  have "isl (stringify_pipe env ctx pipe) \<and> isl (snd (build_pipeline env ctx pipe))
        \<and> fst (build_pipeline env ctx pipe) = []"
  proof (cases "topological_sort env (pipe_graph pipe)")
    case (Inl e)
    then show ?thesis by (simp add: stringify_pipe_def build_pipeline_def)
  next
    case sorted: (Inr module_sequence)
    from assms(3) Inr sorted have "schedules_edges (pipe_graph pipe) module_sequence" by blast
    with assms(1) Inr have z: "?z \<in> set module_sequence" by (rule dangling_target_is_scheduled)
    have "isl (first_pass env ctx pipe module_sequence [])"
      using z unreg by (rule first_pass_unregistered)
    then obtain e1 where e1: "first_pass env ctx pipe module_sequence [] = Inl e1"
      by (cases "first_pass env ctx pipe module_sequence []") simp_all
    have "isl (first_pass_str env pipe module_sequence (header (pipe_name pipe)) [])"
      using z unreg by (rule first_pass_str_unregistered)
    then obtain e2 where
      e2: "first_pass_str env pipe module_sequence (header (pipe_name pipe)) [] = Inl e2"
      by (cases "first_pass_str env pipe module_sequence (header (pipe_name pipe)) []") simp_all
    from sorted e1 e2 show ?thesis by (simp add: stringify_pipe_def build_pipeline_def)
  qed
  with Inr show ?thesis by simp
qed

theorem dangling_wire_raises_witness:
  "mk_wire ''w2'' ''a'' ''_OUTPUT'' ''z'' ''_INPUT'' \<in> set (as_list (def_wires doc_dangling_target))
   \<and> ''z'' \<notin> set (registered_ids (env_seq [''a'', ''b'', ''z'']) (as_list (def_modules doc_dangling_target)))
   \<and> \<not> isl (parse_pipe_def (env_seq [''a'', ''b'', ''z'']) doc_dangling_target ''p'')
   \<and> schedules_edges
        (pipe_graph (projr (parse_pipe_def (env_seq [''a'', ''b'', ''z'']) doc_dangling_target ''p'')))
        [''a'', ''b'', ''z'']
   \<and> isl (stringify_pipe (env_seq [''a'', ''b'', ''z'']) ctx_run
            (projr (parse_pipe_def (env_seq [''a'', ''b'', ''z'']) doc_dangling_target ''p'')))
   \<and> build_pipeline (env_seq [''a'', ''b'', ''z'']) ctx_run
        (projr (parse_pipe_def (env_seq [''a'', ''b'', ''z'']) doc_dangling_target ''p''))
       = ([], Inl KeyError)"
proof -
  let ?env = "env_seq [''a'', ''b'', ''z'']"
  let ?w = "mk_wire ''w2'' ''a'' ''_OUTPUT'' ''z'' ''_INPUT''"
  have h1: "?w \<in> set (as_list (def_wires doc_dangling_target))"
    by (simp add: doc_dangling_target_def)
  have z: "''z'' \<notin> set (registered_ids ?env (as_list (def_modules doc_dangling_target)))"
    by code_simp
  have py: "pythonise ?env (moduleid (tgt ?w)) = ''z''"
    by (simp add: env_seq_def env0_def mk_wire_def)
  have h2: "pythonise ?env (moduleid (src ?w)) \<notin> set (registered_ids ?env (as_list (def_modules doc_dangling_target)))
         \<or> pythonise ?env (moduleid (tgt ?w)) \<notin> set (registered_ids ?env (as_list (def_modules doc_dangling_target)))"
    using z py by simp
  have np: "\<not> isl (parse_pipe_def ?env doc_dangling_target ''p'')" by code_simp
  have sc: "schedules_edges (pipe_graph (projr (parse_pipe_def ?env doc_dangling_target ''p'')))
              [''a'', ''b'', ''z'']"
    by code_simp
  have h3: "\<forall>pipe module_sequence.
           parse_pipe_def ?env doc_dangling_target ''p'' = Inr pipe
           \<longrightarrow> topological_sort ?env (pipe_graph pipe) = Inr module_sequence
           \<longrightarrow> schedules_edges (pipe_graph pipe) module_sequence"
  proof (intro allI impI)
    fix pipe module_sequence
    assume a: "parse_pipe_def ?env doc_dangling_target ''p'' = Inr pipe"
      and b: "topological_sort ?env (pipe_graph pipe) = Inr module_sequence"
    from a have "pipe = projr (parse_pipe_def ?env doc_dangling_target ''p'')" by simp
    moreover from b have "module_sequence = [''a'', ''b'', ''z'']"
      by (simp add: env_seq_def env0_def)
    ultimately show "schedules_edges (pipe_graph pipe) module_sequence" using sc by simp
  qed
  have bp: "build_pipeline ?env ctx_run (projr (parse_pipe_def ?env doc_dangling_target ''p''))
              = ([], Inl KeyError)"
    by code_simp
  from dangling_wire_raises[OF h1 h2 h3, of ctx_run] np h1 z sc bp
  show ?thesis by simp
qed

text \<open>A wire from an id that no module registers makes \<open>parse_pipe_def\<close> itself raise.\<close>

lemma dangling_source_example:
  "parse_pipe_def env0 doc_dangling_source ''p'' = Inl KeyError"
  by code_simp
section \<open>Properties of the wiring resolution\<close>

subsection \<open>Fan-out count\<close>

lemma filter_py_split_test:
  "filter_py (split_test env module_id) xs = (if xs = [] then Inr [] else Inl TypeError)"
  by (cases xs) (simp_all add: split_test_def)

lemma count_splits_cases:
  "count_splits env module_id ws = (if ws = [] then Inr 0 else Inl TypeError)"
  by (simp add: count_splits_def filter_py_split_test keys_def)

text \<open>
  Claim C3 fails on the code. In \<open>pipe_split\<close> two wires leave the split \<open>s\<close>
  from default-output ports, and the fan-out count raises TypeError in both backends.
\<close>

theorem split_count_raises:
  "length (filter (\<lambda>w. pythonise env0 (moduleid (src w)) = ''s''
                       \<and> startswith (port_id (src w)) ''_OUTPUT'')
            (wire_values pipe_split)) = 2
   \<and> count_splits env0 ''s'' (pipe_wires pipe_split) = Inl TypeError
   \<and> plumb env0 ctx_run pipe_split [(''forever'', Forever), (''a'', PyStr ''step of a'')]
         ''s'' (mk_module ''s'' ''split'' (JObj [])) = Inl TypeError
   \<and> plumb_str env0 pipe_split ''s'' (mk_module ''s'' ''split'' (JObj [])) = Inl TypeError"
  by code_simp

subsection \<open>Default input\<close>

lemma default_input_loop_none:
  "\<forall>w \<in> set ws. \<not> is_default_input_wire env module_id w \<Longrightarrow>
   default_input_loop env steps module_id ws v = Inr v"
  by (induction ws arbitrary: v) simp_all

lemma default_input_loop_str_none:
  "\<forall>w \<in> set ws. \<not> is_default_input_wire env module_id w \<Longrightarrow>
   default_input_loop_str env module_id ws v = v"
  by (induction ws arbitrary: v) simp_all

lemma plumb_pargs:
  assumes "plumb env ctx pipe steps module_id m = Inr (pargs, kargs)"
    and "module_id \<notin> set (keys (pipe_embed pipe))"
  shows "\<exists>v. find_default_input env steps pipe module_id = Inr v \<and> pargs = [PyContext ctx, v]"
proof (cases "mod_type m")
  case (Inl e)
  with assms(1) show ?thesis by (simp add: plumb_def)
next
  case t: (Inr module_type)
  show ?thesis
  proof (cases "find_default_input env steps pipe module_id")
    case (Inl e)
    with assms(1) t show ?thesis by (simp add: plumb_def)
  next
    case (Inr v)
    with assms t show ?thesis
      by (auto simp: plumb_def Let_def split: sum.splits if_splits)
  qed
qed

lemma plumb_str_args:
  assumes "plumb_str env pipe module_id m = Inr (mod_args, mod_kwargs)"
    and "module_id \<notin> set (keys (pipe_embed pipe))"
  shows "mod_args = [Positional (Id ''context''),
                     Positional (Id (find_default_input_str env pipe module_id))]"
  using assms by (auto simp: plumb_str_def Let_def split: sum.splits if_splits)

text \<open>
  Claim C4. When no wire is to the default input of \<open>module_id\<close> from a default
  output, and the module is not embedded, the default input found by
  \<open>build_pipeline\<close> is \<open>steps["forever"]\<close>, which is the \<open>pipe_forever\<close> step, and
  the one found by \<open>stringify_pipe\<close> is the name \<open>forever\<close>; these are the second
  positional argument whenever the arguments of the module are produced.
\<close>

theorem unwired_default_input_is_forever:
  assumes "\<forall>w \<in> set (wire_values pipe). \<not> is_default_input_wire env module_id w"
    and "module_id \<notin> set (keys (pipe_embed pipe))"
    and "dict_get steps ''forever'' = Inr Forever"
  shows "find_default_input env steps pipe module_id = Inr Forever
       \<and> find_default_input_str env pipe module_id = ''forever''
       \<and> (\<forall>pargs kargs. plumb env ctx pipe steps module_id m = Inr (pargs, kargs)
             \<longrightarrow> pargs = [PyContext ctx, Forever])
       \<and> (\<forall>mod_args mod_kwargs. plumb_str env pipe module_id m = Inr (mod_args, mod_kwargs)
             \<longrightarrow> mod_args = [Positional (Id ''context''), Positional (Id ''forever'')])"
proof -
  have a: "find_default_input env steps pipe module_id = Inr Forever"
    using assms(1,3) by (simp add: find_default_input_def default_input_loop_none)
  have b: "find_default_input_str env pipe module_id = ''forever''"
    using assms(1) by (simp add: find_default_input_str_def default_input_loop_str_none)
  have c: "\<forall>pargs kargs. plumb env ctx pipe steps module_id m = Inr (pargs, kargs)
             \<longrightarrow> pargs = [PyContext ctx, Forever]"
  proof (intro allI impI)
    fix pargs kargs assume "plumb env ctx pipe steps module_id m = Inr (pargs, kargs)"
    from plumb_pargs[OF this assms(2)] a show "pargs = [PyContext ctx, Forever]" by simp
  qed
  have d: "\<forall>mod_args mod_kwargs. plumb_str env pipe module_id m = Inr (mod_args, mod_kwargs)
             \<longrightarrow> mod_args = [Positional (Id ''context''), Positional (Id ''forever'')]"
  proof (intro allI impI)
    fix mod_args mod_kwargs
    assume "plumb_str env pipe module_id m = Inr (mod_args, mod_kwargs)"
    from plumb_str_args[OF this assms(2)] b
    show "mod_args = [Positional (Id ''context''), Positional (Id ''forever'')]" by simp
  qed
  from a b c d show ?thesis by (intro conjI)
qed

theorem unwired_default_input_is_forever_witness:
  "filter (is_default_input_wire env0 ''a'') (wire_values pipe_ab) = []
   \<and> ''a'' \<notin> set (keys (pipe_embed pipe_ab))
   \<and> dict_get steps0 ''forever'' = Inr Forever
   \<and> plumb env0 ctx_run pipe_ab steps0 ''a'' (mk_module ''a'' ''source'' (JObj []))
       = Inr ([PyContext ctx_run, Forever], [(''conf'', PyJson (JObj []))])
   \<and> plumb_str env0 pipe_ab ''a'' (mk_module ''a'' ''source'' (JObj []))
       = Inr ([Positional (Id ''context''), Positional (Id ''forever'')],
              [Keyword ''conf'' (Conf (JObj []))])
   \<and> find_default_input env0 steps0 pipe_ab ''a'' = Inr Forever
   \<and> find_default_input_str env0 pipe_ab ''a'' = ''forever''"
proof -
  have h1: "\<forall>w \<in> set (wire_values pipe_ab). \<not> is_default_input_wire env0 ''a'' w"
    by (simp add: wire_values_def pipe_ab_def is_default_input_wire_def mk_wire_def env0_def)
  have h2: "''a'' \<notin> set (keys (pipe_embed pipe_ab))"
    by (simp add: pipe_ab_def keys_def)
  have h3: "dict_get steps0 ''forever'' = Inr Forever"
    by (simp add: steps0_def dict_get_def dict_set_def)
  have e1: "plumb env0 ctx_run pipe_ab steps0 ''a'' (mk_module ''a'' ''source'' (JObj []))
       = Inr ([PyContext ctx_run, Forever], [(''conf'', PyJson (JObj []))])"
    by code_simp
  have e2: "plumb_str env0 pipe_ab ''a'' (mk_module ''a'' ''source'' (JObj []))
       = Inr ([Positional (Id ''context''), Positional (Id ''forever'')],
              [Keyword ''conf'' (Conf (JObj []))])"
    by code_simp
  have h0: "filter (is_default_input_wire env0 ''a'') (wire_values pipe_ab) = []"
    using h1 by (simp add: filter_empty_conv)
  from unwired_default_input_is_forever[OF h1 h2 h3] h0 h2 h3 e1 e2
  show ?thesis by simp
qed

subsection \<open>Several wires to one port\<close>

text \<open>
  Claim C5 fails on the code of \<open>stringify_pipe\<close>. In \<open>pipe_two_wires\<close> the wires
  \<open>w1\<close> (from \<open>a\<close>) and \<open>w2\<close> (from \<open>b\<close>) both go to the port \<open>feed\<close> of \<open>m\<close>.
  \<open>build_pipeline\<close> stores them in a dict, so the step of \<open>b\<close> is the one binding left;
  \<open>stringify_pipe\<close> appends to a list and passes both keyword arguments on. For the
  default input of \<open>n\<close> the later wire wins in both.
\<close>

theorem two_wires_one_port:
  "extra_inputs_loop env0
     [(''forever'', Forever), (''a'', PyStr ''step of a''), (''b'', PyStr ''step of b'')]
     ''m'' (wire_values pipe_two_wires) [(''conf'', PyJson (JObj []))]
     = Inr [(''conf'', PyJson (JObj [])), (''feed'', PyStr ''step of b'')]
   \<and> plumb_str env0 pipe_two_wires ''m'' (mk_module ''m'' ''urlbuilder'' (JObj []))
     = Inr ([Positional (Id ''context''), Positional (Id ''forever'')],
            [Keyword ''conf'' (Conf (JObj [])),
             Keyword ''feed'' (Id ''a''), Keyword ''feed'' (Id ''b'')])
   \<and> find_default_input env0
        [(''forever'', Forever), (''a'', PyStr ''step of a''), (''b'', PyStr ''step of b'')]
        pipe_two_wires ''n'' = Inr (PyStr ''step of b'')
   \<and> find_default_input_str env0 pipe_two_wires ''n'' = ''b''"
  by code_simp

subsection \<open>Embedded modules\<close>

lemma check_embedded_isl: "isl (check_embedded steps v)"
  by (cases "dict_get steps ''forever''") (simp_all add: check_embedded_def eq_tuple_def)

lemma plumb_embedded:
  assumes "module_id \<in> set (keys (pipe_embed pipe))"
  shows "isl (plumb env ctx pipe steps module_id m)"
proof (cases "mod_type m")
  case (Inl e)
  then show ?thesis by (simp add: plumb_def)
next
  case t: (Inr module_type)
  show ?thesis
  proof (cases "find_default_input env steps pipe module_id")
    case (Inl e)
    with t show ?thesis by (simp add: plumb_def)
  next
    case (Inr v)
    from check_embedded_isl[of steps v] obtain e where "check_embedded steps v = Inl e"
      by (cases "check_embedded steps v") simp_all
    with Inr t assms show ?thesis by (simp add: plumb_def)
  qed
qed

lemma plumb_str_embedded:
  "module_id \<in> set (keys (pipe_embed pipe)) \<Longrightarrow>
   plumb_str env pipe module_id m = Inl NameError"
  by (simp add: plumb_str_def check_embedded_str_def)

text \<open>
  Claim C1 fails on the code. For the embedded module \<open>e\<close> of \<open>pipe_loop\<close>, which no
  wire touches, neither backend arrives at the placeholder \<open>_INPUT\<close>: the default-input
  loop runs, and then the assertion raises.
\<close>

theorem embedded_module_raises:
  "''e'' \<in> set (keys (pipe_embed pipe_loop))
   \<and> find_default_input env0 steps0 pipe_loop ''e'' = Inr Forever
   \<and> dict_get (pipe_modules pipe_loop) ''e'' = Inr embedded_e
   \<and> plumb env0 ctx_run pipe_loop steps0 ''e'' embedded_e = Inl AssertionError
   \<and> plumb_str env0 pipe_loop ''e'' embedded_e = Inl NameError"
  by code_simp
section \<open>Properties of the two backends\<close>

subsection \<open>build\_pipeline never instantiates a module\<close>

lemma assemble_module_isl: "isl (assemble_module env ctx pipe steps module_id)"
proof (cases "dict_get (pipe_modules pipe) module_id")
  case (Inl e)
  then show ?thesis by (simp add: assemble_module_def)
next
  case (Inr m)
  show ?thesis
  proof (cases "plumb env ctx pipe steps module_id m")
    case (Inl e)
    with Inr show ?thesis by (simp add: assemble_module_def)
  next
    case pl: (Inr pk)
    obtain pargs kargs where pk: "pk = (pargs, kargs)" by (cases pk)
    show ?thesis
    proof (cases "mod_type m")
      case (Inl e)
      with Inr pl pk show ?thesis by (simp add: assemble_module_def)
    next
      case t: (Inr ty)
      show ?thesis
      proof (cases "as_str ty")
        case (Inl e)
        with Inr pl pk t show ?thesis by (simp add: assemble_module_def)
      next
        case ts: (Inr module_type)
        show ?thesis
        proof (cases "import_module env (snd (module_names env module_type))
                        (fst (module_names env module_type))")
          case (Inl e)
          with Inr pl pk t ts show ?thesis by (simp add: assemble_module_def)
        next
          case im: (Inr module_ref)
          with Inr pl pk t ts show ?thesis
            by (simp add: assemble_module_def make_submodule_def call_object_def)
        qed
      qed
    qed
  qed
qed

lemma assemble_all_stops:
  assumes "module_sequence \<noteq> []"
  shows "\<exists>e. assemble_all env ctx pipe module_sequence steps = (steps, Some e)"
proof -
  from assms obtain module_id rest where s: "module_sequence = module_id # rest"
    by (cases module_sequence) simp_all
  from assemble_module_isl[of env ctx pipe steps module_id]
  obtain e where "assemble_module env ctx pipe steps module_id = Inl e"
    by (cases "assemble_module env ctx pipe steps module_id") simp_all
  with s show ?thesis by simp
qed

lemma build_pipeline_never_returns:
  assumes "\<not> describe_input ctx"
  shows "isl (snd (build_pipeline env ctx pipe))
       \<and> set (keys (fst (build_pipeline env ctx pipe))) \<subseteq> {''forever''}"
proof (cases "topological_sort env (pipe_graph pipe)")
  case (Inl e)
  then show ?thesis by (simp add: build_pipeline_def keys_def)
next
  case (Inr module_sequence)
  show ?thesis
  proof (cases "first_pass env ctx pipe module_sequence []")
    case (Inl e)
    with Inr show ?thesis by (simp add: build_pipeline_def keys_def)
  next
    case fp: (Inr pyinput)
    show ?thesis
    proof (cases "module_sequence = []")
      case True
      with Inr fp assms show ?thesis
        by (simp add: build_pipeline_def last_step_def keys_def dict_set_def)
    next
      case False
      from assemble_all_stops[OF False, of env ctx pipe "dict_set ''forever'' Forever []"]
      obtain e where "assemble_all env ctx pipe module_sequence (dict_set ''forever'' Forever [])
                      = (dict_set ''forever'' Forever [], Some e)" by blast
      with Inr fp assms show ?thesis
        by (simp add: build_pipeline_def keys_def dict_set_def)
    qed
  qed
qed

text \<open>
  Claim C9 fails on the code. For the two-module example of the specification (no
  loop, no split, no sub-pipeline) \<open>stringify_pipe\<close> returns a program text, and
  \<open>build_pipeline\<close> returns no pipeline: it raises ImportError when no module called
  \<open>pipe_source\<close> can be imported, and TypeError when one can, because it calls the
  module object.
\<close>

theorem build_pipeline_raises_where_stringify_returns:
  "build_pipeline env0 ctx_run pipe_ab = ([(''forever'', Forever)], Inl ImportError)
   \<and> build_pipeline (env0\<lparr>importable := (\<lambda>n. True)\<rparr>) ctx_run pipe_ab
       = ([(''forever'', Forever)], Inl TypeError)
   \<and> \<not> isl (stringify_pipe env0 ctx_run pipe_ab)"
  by code_simp

subsection \<open>Pipes with a loop\<close>

lemma stringify_module_embedded:
  "module_id \<in> set (keys (pipe_embed pipe)) \<Longrightarrow> isl (stringify_module env pipe module_id)"
  by (cases "dict_get (pipe_modules pipe) module_id")
     (simp_all add: stringify_module_def plumb_str_embedded)

lemma stringify_all_embedded:
  "module_id \<in> set module_sequence \<Longrightarrow> module_id \<in> set (keys (pipe_embed pipe)) \<Longrightarrow>
   isl (stringify_all env pipe module_sequence pypipe)"
proof (induction module_sequence arbitrary: pypipe)
  case Nil
  then show ?case by simp
next
  case (Cons x xs)
  show ?case
  proof (cases "stringify_module env pipe x")
    case (Inl e)
    then show ?thesis by simp
  next
    case (Inr t)
    have "x \<noteq> module_id"
    proof
      assume "x = module_id"
      with Cons.prems(2) have "isl (stringify_module env pipe x)"
        by (simp add: stringify_module_embedded)
      with Inr show False by simp
    qed
    with Cons.prems(1) have "module_id \<in> set xs" by simp
    then have "isl (stringify_all env pipe xs (pypipe @ t))"
      using Cons.prems(2) by (rule Cons.IH)
    with Inr show ?thesis by simp
  qed
qed

text \<open>
  Claim C2 as stated: \<open>pipe_loop\<close>, the pipe parsed from \<open>doc_loop\<close>, has a loop, and
  \<open>build_pipeline\<close> returns for it when the context asks for the declared inputs. The
  pipe parsed from \<open>doc_loop_shadowed\<close> has a loop and an embedded id, its graph is
  empty after pruning, and \<open>stringify_pipe\<close> returns a text for it.
\<close>

theorem loop_pipe_returns:
  "parse_pipe_def env0 doc_loop ''p'' = Inr pipe_loop
   \<and> build_pipeline (env_seq [''a'', ''e'', ''l'']) ctx_describe pipe_loop = ([], Inr (Inputs []))
   \<and> keys (pipe_embed (projr (parse_pipe_def env0 doc_loop_shadowed ''p''))) = [''e'']
   \<and> pipe_graph (projr (parse_pipe_def env0 doc_loop_shadowed ''p'')) = []
   \<and> \<not> isl (stringify_pipe env0 ctx_run (projr (parse_pipe_def env0 doc_loop_shadowed ''p'')))"
  by code_simp

text \<open>
  Claim C2, amended. When the sorter schedules an embedded module id,
  \<open>stringify_pipe\<close> raises, and \<open>build_pipeline\<close> raises unless the context asks for
  the declared inputs; \<open>build_pipeline\<close> has then instantiated no module.
\<close>

theorem scheduled_embedded_module_raises:
  assumes "module_id \<in> set (keys (pipe_embed pipe))"
    and "topological_sort env (pipe_graph pipe) = Inr module_sequence"
    and "module_id \<in> set module_sequence"
  shows "isl (stringify_pipe env ctx pipe)
       \<and> (\<not> describe_input ctx \<longrightarrow>
            isl (snd (build_pipeline env ctx pipe))
            \<and> set (keys (fst (build_pipeline env ctx pipe))) \<subseteq> {''forever''})"
proof -
  have "isl (stringify_pipe env ctx pipe)"
  proof (cases "first_pass_str env pipe module_sequence (header (pipe_name pipe)) []")
    case (Inl e)
    with assms(2) show ?thesis by (simp add: stringify_pipe_def)
  next
    case (Inr r)
    obtain pypipe pyinput where r: "r = (pypipe, pyinput)" by (cases r)
    let ?text = "pypipe @ function_head (pipe_name pipe)
                            (unicode_inputs env (sorted_py env pyinput))"
    have "isl (stringify_all env pipe module_sequence ?text)"
      by (rule stringify_all_embedded[OF assms(3) assms(1)])
    then obtain e where "stringify_all env pipe module_sequence ?text = Inl e"
      by (cases "stringify_all env pipe module_sequence ?text") simp_all
    with assms(2) Inr r show ?thesis by (simp add: stringify_pipe_def)
  qed
  then show ?thesis using build_pipeline_never_returns[of ctx env pipe] by blast
qed

theorem scheduled_embedded_module_raises_witness:
  "''e'' \<in> set (keys (pipe_embed pipe_loop))
   \<and> topological_sort (env_seq [''a'', ''e'', ''l'']) (pipe_graph pipe_loop) = Inr [''a'', ''e'', ''l'']
   \<and> ''e'' \<in> set [''a'', ''e'', ''l'']
   \<and> \<not> describe_input ctx_run
   \<and> isl (stringify_pipe (env_seq [''a'', ''e'', ''l'']) ctx_run pipe_loop)
   \<and> isl (snd (build_pipeline (env_seq [''a'', ''e'', ''l'']) ctx_run pipe_loop))"
proof -
  have h1: "''e'' \<in> set (keys (pipe_embed pipe_loop))"
    by (simp add: pipe_loop_def keys_def)
  have h2: "topological_sort (env_seq [''a'', ''e'', ''l'']) (pipe_graph pipe_loop)
              = Inr [''a'', ''e'', ''l'']"
    by (simp add: env_seq_def env0_def)
  have h3: "''e'' \<in> set [''a'', ''e'', ''l'']" by simp
  have h4: "\<not> describe_input ctx_run" by (simp add: ctx_run_def)
  from scheduled_embedded_module_raises[OF h1 h2 h3, of ctx_run] h1 h2 h3 h4
  show ?thesis by simp
qed
subsection \<open>Declared inputs\<close>

lemma first_pass_collects:
  assumes "describe_input ctx"
  shows "first_pass env ctx pipe module_sequence acc = Inr out \<Longrightarrow>
         \<exists>new. out = acc @ new
              \<and> list_all2 (declared_by pipe) new (filter (declares_prompt pipe) module_sequence)"
proof (induction module_sequence arbitrary: acc)
  case Nil
  then show ?case by simp
next
  case (Cons module_id rest)
  from Cons.prems obtain m where m: "dict_get (pipe_modules pipe) module_id = Inr m"
    by (cases "dict_get (pipe_modules pipe) module_id") simp_all
  from Cons.prems m obtain hp where hp: "module_has_prompt m = Inr hp"
    by (cases "module_has_prompt m") (auto split: sum.splits if_splits)
  show ?case
  proof (cases hp)
    case True
    from Cons.prems m hp True assms obtain t where t: "module_input_tuple m = Inr t"
      by (cases "module_input_tuple m") (auto split: sum.splits if_splits)
    from Cons.prems m hp True assms t
    have "first_pass env ctx pipe rest (acc @ [t]) = Inr out"
      by (auto split: sum.splits if_splits)
    from Cons.IH[OF this] obtain new where
      n: "out = (acc @ [t]) @ new"
      and l: "list_all2 (declared_by pipe) new (filter (declares_prompt pipe) rest)"
      by blast
    have d: "declares_prompt pipe module_id" using m hp True by (simp add: declares_prompt_def)
    have b: "declared_by pipe t module_id" using m t by (simp add: declared_by_def)
    have "out = acc @ (t # new)" using n by simp
    moreover have "list_all2 (declared_by pipe) (t # new)
                     (filter (declares_prompt pipe) (module_id # rest))"
      using d b l by simp
    ultimately show ?thesis by blast
  next
    case False
    from Cons.prems m hp False have "first_pass env ctx pipe rest acc = Inr out"
      by (auto split: sum.splits if_splits)
    from Cons.IH[OF this] obtain new where
      n: "out = acc @ new"
      and l: "list_all2 (declared_by pipe) new (filter (declares_prompt pipe) rest)"
      by blast
    have "\<not> declares_prompt pipe module_id" using m hp False by (simp add: declares_prompt_def)
    with n l show ?thesis by auto
  qed
qed

lemma mset_insort_py: "mset (insort_py env x xs) = add_mset x (mset xs)"
  by (induction xs) simp_all

lemma mset_sorted_py_acc: "mset (sorted_py_acc env xs acc) = mset xs + mset acc"
  by (induction xs arbitrary: acc) (simp_all add: mset_insort_py)

lemma mset_sorted_py: "mset (sorted_py env xs) = mset xs"
  by (simp add: sorted_py_def mset_sorted_py_acc)

lemma set_insort_py: "set (insort_py env x xs) = insert x (set xs)"
  by (induction xs) auto

lemma tuple_lt_position:
  assumes "int_position s" and "int_position t"
  shows "tuple_lt env s t \<Longrightarrow> position_le s t"
    and "\<not> tuple_lt env s t \<Longrightarrow> position_le t s"
proof -
  obtain a1 a2 a3 a4 a5 where s: "s = (a1, a2, a3, a4, a5)" by (cases s)
  obtain b1 b2 b3 b4 b5 where t: "t = (b1, b2, b3, b4, b5)" by (cases t)
  from assms(1) s obtain i where i: "a1 = JInt i"
    by (cases a1) (simp_all add: int_position_def)
  from assms(2) t obtain j where j: "b1 = JInt j"
    by (cases b1) (simp_all add: int_position_def)
  have c: "py_cmp env (JInt i) (JInt j) = (if i < j then - 1 else if i = j then 0 else 1)"
    by (simp add: py_cmp_def)
  show "tuple_lt env s t \<Longrightarrow> position_le s t"
    unfolding s t i j tuple_lt_def position_le_def
    by (simp add: c split: if_splits)
  show "\<not> tuple_lt env s t \<Longrightarrow> position_le t s"
    unfolding s t i j tuple_lt_def position_le_def
    by (simp add: c split: if_splits)
qed

lemma position_le_trans:
  "position_le r s \<Longrightarrow> position_le s t \<Longrightarrow> position_le r t"
  by (auto simp: position_le_def split: json.splits)

lemma sorted_insort_py:
  assumes "int_position x" and "\<forall>y \<in> set ys. int_position y"
    and "sorted_wrt position_le ys"
  shows "sorted_wrt position_le (insort_py env x ys)"
  using assms(2,3)
proof (induction ys)
  case Nil
  then show ?case by simp
next
  case (Cons y ys)
  have py: "int_position y" using Cons.prems(1) by simp
  show ?case
  proof (cases "tuple_lt env x y")
    case True
    then have xy: "position_le x y" using assms(1) py by (simp add: tuple_lt_position(1))
    have "\<forall>z \<in> set ys. position_le x z"
    proof
      fix z assume "z \<in> set ys"
      with Cons.prems(2) have "position_le y z" by simp
      with xy show "position_le x z" by (rule position_le_trans)
    qed
    with True xy Cons.prems(2) show ?thesis by simp
  next
    case False
    then have yx: "position_le y x" using assms(1) py by (simp add: tuple_lt_position(2))
    have ih: "sorted_wrt position_le (insort_py env x ys)"
      using Cons.IH Cons.prems by simp
    have "\<forall>z \<in> set (insort_py env x ys). position_le y z"
      using yx Cons.prems(2) by (simp add: set_insort_py)
    with False ih show ?thesis by simp
  qed
qed

lemma sorted_sorted_py_acc:
  "\<forall>y \<in> set xs \<union> set acc. int_position y \<Longrightarrow> sorted_wrt position_le acc \<Longrightarrow>
   sorted_wrt position_le (sorted_py_acc env xs acc)"
proof (induction xs arbitrary: acc)
  case Nil
  then show ?case by simp
next
  case (Cons x xs)
  have "sorted_wrt position_le (insort_py env x acc)"
    using Cons.prems by (simp add: sorted_insort_py)
  moreover have "\<forall>y \<in> set xs \<union> set (insort_py env x acc). int_position y"
    using Cons.prems(1) by (simp add: set_insort_py)
  ultimately show ?case using Cons.IH by simp
qed

lemma sorted_sorted_py:
  "\<forall>y \<in> set xs. int_position y \<Longrightarrow> sorted_wrt position_le (sorted_py env xs)"
  by (simp add: sorted_py_def sorted_sorted_py_acc)

text \<open>
  Claim C7. With \<open>describe_input\<close> set, and when the first pass goes through (the
  sorter returns an order and every scheduled module is registered, importable where
  it names a sub-pipeline, and has the entries of its prompt), \<open>build_pipeline\<close>
  returns a list and has instantiated no step: the dict \<open>steps\<close> was never created.
  The list is a permutation of the tuples collected, which are, in scheduled order, one
  tuple for each scheduled module whose configuration has a \<open>prompt\<close> entry; when the
  positions are integers the list is in ascending order of position.
\<close>

theorem describe_input_returns_sorted_inputs:
  assumes "describe_input ctx"
    and "topological_sort env (pipe_graph pipe) = Inr module_sequence"
    and "first_pass env ctx pipe module_sequence [] = Inr pyinput"
  shows "build_pipeline env ctx pipe = ([], Inr (Inputs (sorted_py env pyinput)))
       \<and> mset (sorted_py env pyinput) = mset pyinput
       \<and> list_all2 (declared_by pipe) pyinput (filter (declares_prompt pipe) module_sequence)
       \<and> ((\<forall>t \<in> set pyinput. int_position t)
            \<longrightarrow> sorted_wrt position_le (sorted_py env pyinput))"
proof -
  have a: "build_pipeline env ctx pipe = ([], Inr (Inputs (sorted_py env pyinput)))"
    using assms by (simp add: build_pipeline_def)
  from first_pass_collects[OF assms(1) assms(3)]
  have c: "list_all2 (declared_by pipe) pyinput (filter (declares_prompt pipe) module_sequence)"
    by simp
  have d: "(\<forall>t \<in> set pyinput. int_position t)
            \<longrightarrow> sorted_wrt position_le (sorted_py env pyinput)"
    by (simp add: sorted_sorted_py)
  from a c d show ?thesis by (simp add: mset_sorted_py)
qed

theorem describe_input_returns_sorted_inputs_witness:
  "describe_input ctx_describe
   \<and> topological_sort env0 (pipe_graph pipe_prompts) = Inr [''t1'', ''t2'', ''o'']
   \<and> first_pass env0 ctx_describe pipe_prompts [''t1'', ''t2'', ''o''] []
       = Inr [(JInt 2, JStr ''first'', JStr ''Enter'', JStr ''text'', JStr ''x''),
              (JInt 1, JStr ''second'', JStr ''Enter'', JStr ''text'', JStr ''x'')]
   \<and> build_pipeline env0 ctx_describe pipe_prompts
       = ([], Inr (Inputs [(JInt 1, JStr ''second'', JStr ''Enter'', JStr ''text'', JStr ''x''),
                           (JInt 2, JStr ''first'', JStr ''Enter'', JStr ''text'', JStr ''x'')]))
   \<and> filter (declares_prompt pipe_prompts) [''t1'', ''t2'', ''o''] = [''t1'', ''t2'']"
proof -
  let ?in = "[(JInt 2, JStr ''first'', JStr ''Enter'', JStr ''text'', JStr ''x''),
              (JInt 1, JStr ''second'', JStr ''Enter'', JStr ''text'', JStr ''x'')]"
  have h1: "describe_input ctx_describe" by (simp add: ctx_describe_def)
  have h2: "topological_sort env0 (pipe_graph pipe_prompts) = Inr [''t1'', ''t2'', ''o'']"
    by (simp add: env0_def pipe_prompts_def)
  have h3: "first_pass env0 ctx_describe pipe_prompts [''t1'', ''t2'', ''o''] [] = Inr ?in"
    by code_simp
  have s: "sorted_py env0 ?in
          = [(JInt 1, JStr ''second'', JStr ''Enter'', JStr ''text'', JStr ''x''),
             (JInt 2, JStr ''first'', JStr ''Enter'', JStr ''text'', JStr ''x'')]"
    by code_simp
  have f: "filter (declares_prompt pipe_prompts) [''t1'', ''t2'', ''o''] = [''t1'', ''t2'']"
    by code_simp
  from describe_input_returns_sorted_inputs[OF h1 h2 h3] h1 h2 h3 s f
  show ?thesis by simp
qed

end
